theory Spec2Isabelle
  imports Main
begin

section \<open>JavaScript strings and numbers\<close>

text \<open>
  A string is the list of the bytes of its UTF-8 encoding: an ASCII character is one byte,
  and searching, comparing and concatenating strings of characters is the same on their
  bytes. Numbers are the non-negative integers the program can meet: every number that is
  read from a version string is at most \<open>MAX_SAFE_INTEGER\<close>, and one increment of such a
  number is still exact in a JavaScript double.
\<close>

text \<open>\<open>s.startsWith(p)\<close>; also what an anchored pattern \<open>/^p.*/\<close> tests.\<close>

fun starts_with :: "string \<Rightarrow> string \<Rightarrow> bool" where
  "starts_with s [] = True"
| "starts_with [] (p # ps) = False"
| "starts_with (c # cs) (p # ps) = (c = p \<and> starts_with cs ps)"

text \<open>\<open>s.includes(sub)\<close>: \<open>sub\<close> occurs in \<open>s\<close> as a contiguous substring.\<close>

fun string_includes :: "string \<Rightarrow> string \<Rightarrow> bool" where
  "string_includes [] sub = (sub = [])"
| "string_includes (c # cs) sub = (starts_with (c # cs) sub \<or> string_includes cs sub)"

text \<open>\<open>s.replace(pat, rep)\<close> with a string pattern: only the first occurrence is replaced.\<close>

fun replace :: "string \<Rightarrow> string \<Rightarrow> string \<Rightarrow> string" where
  "replace [] pat rep = (if pat = [] then rep else [])"
| "replace (c # cs) pat rep =
     (if starts_with (c # cs) pat then rep @ drop (length pat) (c # cs)
      else c # replace cs pat rep)"

text \<open>
  \<open>s.split(sep)\<close> with a one-character separator; the empty string splits into one
  empty string.
\<close>

fun split :: "char \<Rightarrow> string \<Rightarrow> string list" where
  "split sep [] = [[]]"
| "split sep (c # cs) =
     (if c = sep then [] # split sep cs
      else (case split sep cs of [] \<Rightarrow> [[c]] | p # ps \<Rightarrow> (c # p) # ps))"

text \<open>\<open>xs.join(sep)\<close>.\<close>

fun join :: "string \<Rightarrow> string list \<Rightarrow> string" where
  "join sep [] = []"
| "join sep [x] = x"
| "join sep (x # y # ys) = x @ sep @ join sep (y # ys)"

text \<open>
  \<open>s.length\<close> counts UTF-16 code units: one for each character, and two for a character
  outside the basic plane. In UTF-8 a byte \<open>10xxxxxx\<close> continues a character, and a byte
  \<open>1111xxxx\<close> starts a character outside the basic plane.
\<close>

definition continuation_byte :: "char \<Rightarrow> bool" where
  "continuation_byte c = (digit7 c \<and> \<not> digit6 c)"

definition astral_lead_byte :: "char \<Rightarrow> bool" where
  "astral_lead_byte c = (digit7 c \<and> digit6 c \<and> digit5 c \<and> digit4 c)"

definition js_length :: "string \<Rightarrow> nat" where
  "js_length s =
     length (filter (\<lambda>c. \<not> continuation_byte c) s) + length (filter astral_lead_byte s)"

text \<open>
  The characters that \<open>s.trim()\<close> removes, each in UTF-8: the white space TAB, VT, FF,
  SP, U+00A0, U+FEFF and the space separators U+1680, U+2000 to U+200A, U+202F, U+205F,
  U+3000, and the line terminators LF, CR, U+2028, U+2029.
\<close>

definition white_space :: "string list" where
  "white_space =
     [[CHR 0x09], [CHR 0x0A], [CHR 0x0B], [CHR 0x0C], [CHR 0x0D], [CHR 0x20],
      [CHR 0xC2, CHR 0xA0],
      [CHR 0xE1, CHR 0x9A, CHR 0x80],
      [CHR 0xE2, CHR 0x80, CHR 0x80], [CHR 0xE2, CHR 0x80, CHR 0x81],
      [CHR 0xE2, CHR 0x80, CHR 0x82], [CHR 0xE2, CHR 0x80, CHR 0x83],
      [CHR 0xE2, CHR 0x80, CHR 0x84], [CHR 0xE2, CHR 0x80, CHR 0x85],
      [CHR 0xE2, CHR 0x80, CHR 0x86], [CHR 0xE2, CHR 0x80, CHR 0x87],
      [CHR 0xE2, CHR 0x80, CHR 0x88], [CHR 0xE2, CHR 0x80, CHR 0x89],
      [CHR 0xE2, CHR 0x80, CHR 0x8A],
      [CHR 0xE2, CHR 0x80, CHR 0xA8], [CHR 0xE2, CHR 0x80, CHR 0xA9],
      [CHR 0xE2, CHR 0x80, CHR 0xAF],
      [CHR 0xE2, CHR 0x81, CHR 0x9F],
      [CHR 0xE3, CHR 0x80, CHR 0x80],
      [CHR 0xEF, CHR 0xBB, CHR 0xBF]]"

text \<open>\<open>s\<close> without the words of \<open>ws\<close> that it starts with, one after the other.\<close>

fun strip_leading :: "string list \<Rightarrow> string \<Rightarrow> string" where
  "strip_leading ws [] = []"
| "strip_leading ws (c # cs) =
     (case find (\<lambda>w. w \<noteq> [] \<and> starts_with (c # cs) w) ws of
        None \<Rightarrow> c # cs
      | Some w \<Rightarrow> strip_leading ws (drop (length w - 1) cs))"

text \<open>
  \<open>s.trim()\<close>: the white space and line terminators are removed at both ends; at the end
  each of them is read backwards.
\<close>

definition trim :: "string \<Rightarrow> string" where
  "trim s = rev (strip_leading (map rev white_space) (rev (strip_leading white_space s)))"

definition is_digit :: "char \<Rightarrow> bool" where
  "is_digit c = (c \<in> set ''0123456789'')"

definition is_letter :: "char \<Rightarrow> bool" where
  "is_letter c = (c \<in> set ''abcdefghijklmnopqrstuvwxyzABCDEFGHIJKLMNOPQRSTUVWXYZ'')"

text \<open>The value of a digit is its position in \<open>0123456789\<close>.\<close>

definition digit_val :: "char \<Rightarrow> nat" where
  "digit_val c = length (takeWhile (\<lambda>d. d \<noteq> c) ''0123456789'')"

text \<open>\<open>+s\<close> for a string \<open>s\<close> of decimal digits.\<close>

definition to_number :: "string \<Rightarrow> nat" where
  "to_number s = foldl (\<lambda>n c. 10 * n + digit_val c) 0 s"

text \<open>\<open>String(n)\<close> for a non-negative integer below \<open>1e21\<close>: its decimal digits.\<close>

fun number_to_string :: "nat \<Rightarrow> string" where
  "number_to_string n =
     (if n < 10 then [''0123456789'' ! n]
      else number_to_string (n div 10) @ [''0123456789'' ! (n mod 10)])"

declare number_to_string.simps [simp del]

text \<open>
  \<open>isNaN(s)\<close> for a string: false exactly when \<open>s\<close>, trimmed, is empty or a numeric
  literal (a signed decimal literal, \<open>Infinity\<close>, or an unsigned binary, octal or
  hexadecimal integer literal).
\<close>

definition exponent_part :: "string \<Rightarrow> bool" where
  "exponent_part r =
     (r = [] \<or>
      (hd r \<in> set ''eE'' \<and>
       (let r1 = tl r;
            r2 = (if r1 \<noteq> [] \<and> hd r1 \<in> set ''+-'' then tl r1 else r1)
        in r2 \<noteq> [] \<and> list_all is_digit r2)))"

definition unsigned_decimal_literal :: "string \<Rightarrow> bool" where
  "unsigned_decimal_literal s =
     (s = ''Infinity'' \<or>
      (let ip = takeWhile is_digit s;
           r1 = dropWhile is_digit s;
           has_dot = (r1 \<noteq> [] \<and> hd r1 = CHR ''.'');
           fp = (if has_dot then takeWhile is_digit (tl r1) else []);
           r2 = (if has_dot then dropWhile is_digit (tl r1) else r1)
       in (ip \<noteq> [] \<or> fp \<noteq> []) \<and> exponent_part r2))"

definition non_decimal_literal :: "string \<Rightarrow> bool" where
  "non_decimal_literal s =
     (case s of
        z # k # ds \<Rightarrow>
          z = CHR ''0'' \<and> ds \<noteq> [] \<and>
          ((k \<in> set ''bB'' \<and> list_all (\<lambda>c. c \<in> set ''01'') ds) \<or>
           (k \<in> set ''oO'' \<and> list_all (\<lambda>c. c \<in> set ''01234567'') ds) \<or>
           (k \<in> set ''xX'' \<and> list_all (\<lambda>c. c \<in> set ''0123456789abcdefABCDEF'') ds))
      | _ \<Rightarrow> False)"

definition isNaN_string :: "string \<Rightarrow> bool" where
  "isNaN_string s =
     (let t = trim s
      in \<not> (t = [] \<or> non_decimal_literal t \<or>
             unsigned_decimal_literal (if hd t \<in> set ''+-'' then tl t else t)))"

section \<open>The semver library, as the program calls it\<close>

text \<open>
  The program calls three functions of the npm package \<open>semver\<close>: \<open>valid\<close>,
  \<open>prerelease\<close> and \<open>inc\<close>, all in strict (not loose) mode. The package is not part
  of the repository; the three functions are modelled after its source (version 6, whose
  behaviour for these calls is also that of the first versions 7): a version object, the
  constructor that parses a string with the pattern \<open>FULL\<close>, \<open>format\<close>, and the method
  \<open>inc\<close>. A thrown error or a \<open>null\<close> result is \<open>None\<close>.
\<close>

definition MAX_LENGTH :: nat where
  "MAX_LENGTH = 256"

definition MAX_SAFE_INTEGER :: nat where
  "MAX_SAFE_INTEGER = 9007199254740991"

text \<open>A pre-release identifier is a number or a string.\<close>

datatype pre_identifier = Num nat | Str string

record SemVer =
  major :: nat
  minor :: nat
  patch :: nat
  prerelease :: "pre_identifier list"
  build :: "string list"

text \<open>\<open>NUMERICIDENTIFIER\<close>: \<open>0|[1-9]\d*\<close>.\<close>

definition numeric_identifier :: "string \<Rightarrow> bool" where
  "numeric_identifier s = (s \<noteq> [] \<and> list_all is_digit s \<and> (s = ''0'' \<or> hd s \<noteq> CHR ''0''))"

text \<open>\<open>BUILDIDENTIFIER\<close>: \<open>[0-9A-Za-z-]+\<close>.\<close>

definition build_identifier :: "string \<Rightarrow> bool" where
  "build_identifier s = (s \<noteq> [] \<and> list_all (\<lambda>c. is_digit c \<or> is_letter c \<or> c = CHR ''-'') s)"

text \<open>
  \<open>PRERELEASEIDENTIFIER\<close>: a numeric identifier, or \<open>NONNUMERICIDENTIFIER\<close>
  \<open>\d*[a-zA-Z-][a-zA-Z0-9-]*\<close>, which is a build identifier with a character that is not a
  digit.
\<close>

definition prerelease_identifier :: "string \<Rightarrow> bool" where
  "prerelease_identifier s =
     (numeric_identifier s \<or> (build_identifier s \<and> \<not> list_all is_digit s))"

text \<open>The part of \<open>s\<close> before the first \<open>sep\<close>, and the part after it if there is one.\<close>

definition break_at :: "char \<Rightarrow> string \<Rightarrow> string \<times> string option" where
  "break_at sep s =
     (takeWhile (\<lambda>c. c \<noteq> sep) s,
      if sep \<in> set s then Some (tl (dropWhile (\<lambda>c. c \<noteq> sep) s)) else None)"

text \<open>
  \<open>s.match(re[FULL])\<close>: the pattern is
  \<open>^v?(N)\.(N)\.(N)(?:-(P(?:\.P)*))?(?:\+(B(?:\.B)*))?$\<close>, with \<open>N\<close> a numeric, \<open>P\<close> a
  pre-release and \<open>B\<close> a build identifier. The result holds the five groups. The main
  version and the pre-release have no \<open>+\<close>, and the main version has no \<open>-\<close>, so the build
  starts after the first \<open>+\<close> and the pre-release after the first \<open>-\<close> before it.
\<close>

definition match_FULL ::
    "string \<Rightarrow> (string \<times> string \<times> string \<times> string option \<times> string option) option" where
  "match_FULL s =
     (let s1 = (if starts_with s ''v'' then tl s else s);
          (s2, m5) = break_at CHR ''+'' s1;
          (s3, m4) = break_at CHR ''-'' s2
      in case split CHR ''.'' s3 of
           [m1, m2, m3] \<Rightarrow>
             if numeric_identifier m1 \<and> numeric_identifier m2 \<and> numeric_identifier m3 \<and>
                (case m4 of None \<Rightarrow> True
                 | Some p \<Rightarrow> list_all prerelease_identifier (split CHR ''.'' p)) \<and>
                (case m5 of None \<Rightarrow> True
                 | Some b \<Rightarrow> list_all build_identifier (split CHR ''.'' b))
             then Some (m1, m2, m3, m4, m5) else None
         | _ \<Rightarrow> None)"

text \<open>
  The constructor maps each pre-release identifier: digits only, and a value below
  \<open>MAX_SAFE_INTEGER\<close>, become a number; anything else stays a string.
\<close>

definition prerelease_id :: "string \<Rightarrow> pre_identifier" where
  "prerelease_id s =
     (if s \<noteq> [] \<and> list_all is_digit s \<and> to_number s < MAX_SAFE_INTEGER
      then Num (to_number s) else Str s)"

text \<open>\<open>new SemVer(version)\<close>; \<open>None\<close> when the constructor throws.\<close>

definition new_SemVer :: "string \<Rightarrow> SemVer option" where
  "new_SemVer version =
     (if js_length version > MAX_LENGTH then None
      else case match_FULL (trim version) of
        None \<Rightarrow> None
      | Some (m1, m2, m3, m4, m5) \<Rightarrow>
          if to_number m1 > MAX_SAFE_INTEGER then None
          else if to_number m2 > MAX_SAFE_INTEGER then None
          else if to_number m3 > MAX_SAFE_INTEGER then None
          else Some \<lparr> major = to_number m1, minor = to_number m2, patch = to_number m3,
                      prerelease = (case m4 of None \<Rightarrow> []
                                    | Some p \<Rightarrow> map prerelease_id (split CHR ''.'' p)),
                      build = (case m5 of None \<Rightarrow> [] | Some b \<Rightarrow> split CHR ''.'' b) \<rparr>)"

definition identifier_to_string :: "pre_identifier \<Rightarrow> string" where
  "identifier_to_string i = (case i of Num n \<Rightarrow> number_to_string n | Str s \<Rightarrow> s)"

text \<open>\<open>SemVer.prototype.format\<close>: the value of the field \<open>version\<close>.\<close>

definition format :: "SemVer \<Rightarrow> string" where
  "format v =
     number_to_string (major v) @ ''.'' @ number_to_string (minor v) @ ''.'' @
     number_to_string (patch v) @
     (if prerelease v \<noteq> [] then ''-'' @ join ''.'' (map identifier_to_string (prerelease v))
      else [])"

text \<open>\<open>parse(version)\<close>: tests the untrimmed string before it constructs.\<close>

definition parse :: "string \<Rightarrow> SemVer option" where
  "parse version =
     (if js_length version > MAX_LENGTH then None
      else if match_FULL version = None then None
      else new_SemVer version)"

text \<open>\<open>semver.valid(version)\<close>.\<close>

definition semver_valid :: "string \<Rightarrow> string option" where
  "semver_valid version = (case parse version of None \<Rightarrow> None | Some v \<Rightarrow> Some (format v))"

text \<open>\<open>semver.prerelease(version)\<close>: \<open>null\<close> also when the version has no pre-release.\<close>

definition semver_prerelease :: "string \<Rightarrow> pre_identifier list option" where
  "semver_prerelease version =
     (case parse version of
        None \<Rightarrow> None
      | Some v \<Rightarrow> if prerelease v \<noteq> [] then Some (prerelease v) else None)"

text \<open>
  The loop of \<open>inc('pre')\<close>: from the right, the first identifier that is a number is
  incremented; when there is none, \<open>0\<close> is pushed.
\<close>

fun bump_last_number :: "pre_identifier list \<Rightarrow> pre_identifier list option" where
  "bump_last_number [] = None"
| "bump_last_number (i # ids) =
     (case bump_last_number ids of
        Some ids' \<Rightarrow> Some (i # ids')
      | None \<Rightarrow> (case i of Num n \<Rightarrow> Some (Num (n + 1) # ids) | Str s \<Rightarrow> None))"

definition isNaN_second :: "pre_identifier list \<Rightarrow> bool" where
  "isNaN_second ids =
     (case ids of
        _ # Num n # _ \<Rightarrow> False
      | _ # Str s # _ \<Rightarrow> isNaN_string s
      | _ \<Rightarrow> True)"

text \<open>\<open>this.inc('pre', identifier)\<close>; an empty identifier counts as none.\<close>

definition inc_pre :: "SemVer \<Rightarrow> string option \<Rightarrow> SemVer" where
  "inc_pre v ident =
     (let pre1 = (if prerelease v = [] then [Num 0]
                  else (case bump_last_number (prerelease v) of
                          Some ids \<Rightarrow> ids
                        | None \<Rightarrow> prerelease v @ [Num 0]));
          pre2 = (case ident of
                    None \<Rightarrow> pre1
                  | Some s \<Rightarrow>
                      if s = [] then pre1
                      else if hd pre1 = Str s
                      then (if isNaN_second pre1 then [Str s, Num 0] else pre1)
                      else [Str s, Num 0])
      in v\<lparr>prerelease := pre2\<rparr>)"

text \<open>\<open>this.inc('patch')\<close>.\<close>

definition inc_patch :: "SemVer \<Rightarrow> SemVer" where
  "inc_patch v =
     (let v1 = (if prerelease v = [] then v\<lparr>patch := patch v + 1\<rparr> else v)
      in v1\<lparr>prerelease := []\<rparr>)"

text \<open>\<open>SemVer.prototype.inc(release, identifier)\<close>; \<open>None\<close> for an unknown release type.\<close>

definition SemVer_inc :: "SemVer \<Rightarrow> string \<Rightarrow> string option \<Rightarrow> SemVer option" where
  "SemVer_inc v release ident =
     (if release = ''premajor'' then
        Some (inc_pre (v\<lparr>prerelease := [], patch := 0, minor := 0, major := major v + 1\<rparr>)
                ident)
      else if release = ''preminor'' then
        Some (inc_pre (v\<lparr>prerelease := [], patch := 0, minor := minor v + 1\<rparr>) ident)
      else if release = ''prepatch'' then
        Some (inc_pre (inc_patch (v\<lparr>prerelease := []\<rparr>)) ident)
      else if release = ''prerelease'' then
        Some (inc_pre (if prerelease v = [] then inc_patch v else v) ident)
      else if release = ''major'' then
        Some ((if minor v \<noteq> 0 \<or> patch v \<noteq> 0 \<or> prerelease v = []
               then v\<lparr>major := major v + 1\<rparr> else v)
              \<lparr>minor := 0, patch := 0, prerelease := []\<rparr>)
      else if release = ''minor'' then
        Some ((if patch v \<noteq> 0 \<or> prerelease v = [] then v\<lparr>minor := minor v + 1\<rparr> else v)
              \<lparr>patch := 0, prerelease := []\<rparr>)
      else if release = ''patch'' then Some (inc_patch v)
      else if release = ''pre'' then Some (inc_pre v ident)
      else None)"

text \<open>\<open>semver.inc(version, release, identifier)\<close>.\<close>

definition semver_inc :: "string \<Rightarrow> string \<Rightarrow> string option \<Rightarrow> string option" where
  "semver_inc version release ident =
     (case new_SemVer version of
        None \<Rightarrow> None
      | Some v \<Rightarrow> (case SemVer_inc v release ident of
                     None \<Rightarrow> None
                   | Some v' \<Rightarrow> Some (format v')))"

section \<open>The action\<close>

subsection \<open>Branch types\<close>

text \<open>
  Each pattern of \<open>branchTypes\<close> is \<open>/^p.*/\<close> for a literal \<open>p\<close>: without flags, \<open>^\<close> is
  the start of the input and \<open>.*\<close> also matches nothing, so \<open>pattern.test(s)\<close> holds
  exactly when \<open>s\<close> starts with \<open>p\<close>. A pattern is kept as its literal.
\<close>

record BranchType =
  pattern :: string
  bump :: string
  label :: string

definition test :: "string \<Rightarrow> string \<Rightarrow> bool" where
  "test p s = starts_with s p"

definition branchTypes :: "BranchType list" where
  "branchTypes =
     [\<lparr>pattern = ''fix/'', bump = ''patch'', label = ''fix''\<rparr>,
      \<lparr>pattern = ''feature/'', bump = ''minor'', label = ''feature''\<rparr>,
      \<lparr>pattern = ''release/'', bump = ''major'', label = ''release''\<rparr>,
      \<lparr>pattern = ''chore/'', bump = ''chore'', label = ''chore''\<rparr>]"

text \<open>\<open>branchTypes.find(branchPat => branchPat.pattern.test(branch))\<close>.\<close>

definition find_pattern :: "string \<Rightarrow> BranchType option" where
  "find_pattern branch = find (\<lambda>branchPat. test (pattern branchPat) branch) branchTypes"

subsection \<open>The next tag\<close>

text \<open>
  The tags are the names of \<open>tags.data\<close>, in the order of the response. A value is truthy
  when it is neither \<open>null\<close> nor the empty string.
\<close>

definition truthy :: "string option \<Rightarrow> bool" where
  "truthy x = (case x of None \<Rightarrow> False | Some s \<Rightarrow> s \<noteq> [])"

definition fullReleases :: "string list \<Rightarrow> string list" where
  "fullReleases tags =
     filter (\<lambda>tag. semver_prerelease tag = None \<and> semver_valid tag = Some tag) tags"

definition firstValid :: "string list \<Rightarrow> string option" where
  "firstValid tags = find (\<lambda>tag. truthy (semver_valid tag)) (fullReleases tags)"

definition lastTag :: "string list \<Rightarrow> string" where
  "lastTag tags = (case firstValid tags of Some tag \<Rightarrow> tag | None \<Rightarrow> ''0.0.0'')"

definition rcName :: "string \<Rightarrow> string" where
  "rcName branch = ''rc-'' @ replace branch ''/'' ''-''"

definition rcs :: "string list \<Rightarrow> string \<Rightarrow> string list" where
  "rcs tags branch = filter (\<lambda>tag. string_includes tag (rcName branch)) tags"

text \<open>
  The value of \<open>newTag\<close> before the release is created; \<open>bump_kind\<close> is \<open>pattern.bump\<close>.
  \<open>None\<close> is \<open>null\<close>.
\<close>

definition newTag :: "string list \<Rightarrow> string \<Rightarrow> string \<Rightarrow> bool \<Rightarrow> string option" where
  "newTag tags branch bump_kind preRelease =
     (let prefix = (if preRelease then ''pre'' else []);
          bump_arg = prefix @ bump_kind
      in if preRelease then
           (if rcs tags branch \<noteq> []
            then semver_inc (hd (rcs tags branch)) ''prerelease'' None
            else semver_inc (lastTag tags) bump_arg (Some (rcName branch)))
         else semver_inc (lastTag tags) bump_arg None)"

subsection \<open>Events, collaborators and effects\<close>

record PullRequest =
  pr_number :: int
  pr_title :: string
  pr_body :: string
  pr_head_ref :: string
  pr_base_ref :: string
  pr_draft :: bool
  pr_merged :: bool

text \<open>
  \<open>Github.context\<close>: the event name with the fields of the payload that \<open>run\<close> reads.
  For \<open>issue_comment\<close>: \<open>action\<close>, \<open>comment.body\<close>, \<open>issue.number\<close>; for
  \<open>pull_request\<close>: \<open>action\<close>, \<open>number\<close>, \<open>pull_request\<close>.
\<close>

datatype event =
    IssueComment string string int
  | PullRequestEvent string int PullRequest
  | OtherEvent string

record Release =
  tag_name :: "string option"
  name :: string
  body :: string
  draft :: bool
  prerelease_flag :: bool
  target_commitish :: string

datatype js_value = JString string | JBool bool | JNull

text \<open>What a run does to the outside, in order.\<close>

datatype effect =
    PullsGet int
  | AddLabels int "string list"
  | CreateComment int string
  | Warning string
  | Info string
  | ListTags
  | CreateRelease Release
  | SetFailed string
  | SetOutput string js_value

text \<open>
  The answers of the GitHub client. \<open>Inl msg\<close> is a rejected call, which throws an error
  with that message; \<open>create_release\<close> answers with the status of the response.
\<close>

record world =
  pulls_get :: "int \<Rightarrow> string + PullRequest"
  add_labels :: "int \<Rightarrow> string list \<Rightarrow> string + unit"
  create_comment :: "int \<Rightarrow> string \<Rightarrow> string + unit"
  list_tags :: "string + string list"
  create_release :: "Release \<Rightarrow> string + int"

text \<open>How a block ends: it goes on with a value, it returns from \<open>run\<close>, or it throws.\<close>

datatype 'a step = Continue 'a | Return | Throw string

subsection \<open>addLabel\<close>

definition addLabel :: "world \<Rightarrow> PullRequest \<Rightarrow> effect list \<times> string option" where
  "addLabel w pr =
     (case find_pattern (pr_head_ref pr) of
        None \<Rightarrow> ([Warning ''branch pattern not expected, skipping''], None)
      | Some p \<Rightarrow>
          ([AddLabels (pr_number pr) [label p]],
           case add_labels w (pr_number pr) [label p] of Inl e \<Rightarrow> Some e | Inr _ \<Rightarrow> None))"

subsection \<open>run\<close>

definition opened_comment :: string where
  "opened_comment = ''Add a comment including `#tag` to create a release candidate tag.''"

text \<open>The first part of \<open>run\<close>: which pull request the event is about.\<close>

definition extract_pr :: "world \<Rightarrow> event \<Rightarrow> effect list \<times> PullRequest option step" where
  "extract_pr w ev =
     (case ev of
        IssueComment action comment_body issue_number \<Rightarrow>
          if action = ''created'' \<and> string_includes comment_body ''#tag'' then
            (case pulls_get w issue_number of
               Inl e \<Rightarrow> ([PullsGet issue_number], Throw e)
             | Inr pr \<Rightarrow> ([PullsGet issue_number], Continue (Some pr)))
          else ([], Continue None)
      | PullRequestEvent action number pull_request \<Rightarrow>
          if action = ''opened'' then
            (case addLabel w pull_request of
               (es, Some e) \<Rightarrow> (es, Throw e)
             | (es, None) \<Rightarrow>
                 (es @ [CreateComment number opened_comment],
                  case create_comment w number opened_comment of
                    Inl e \<Rightarrow> Throw e
                  | Inr _ \<Rightarrow> Return))
          else if \<not> (action = ''closed'' \<and> pr_merged pull_request) then ([], Return)
          else ([], Continue (Some pull_request))
      | OtherEvent _ \<Rightarrow> ([], Continue None))"

definition created_comment :: "bool \<Rightarrow> string option \<Rightarrow> string" where
  "created_comment preRelease new_tag =
     '':label: '' @ (if preRelease then ''Pre-release'' else ''Release'') @ '' `'' @
     (case new_tag of None \<Rightarrow> ''null'' | Some t \<Rightarrow> t) @ ''` created.''"

definition js_of_tag :: "string option \<Rightarrow> js_value" where
  "js_of_tag t = (case t of None \<Rightarrow> JNull | Some s \<Rightarrow> JString s)"

text \<open>
  The rest of \<open>run\<close>, once a pull request was found. The second component is the message
  of a thrown error.
\<close>

definition release_pr :: "world \<Rightarrow> PullRequest \<Rightarrow> effect list \<times> string option" where
  "release_pr w pr =
     (if pr_base_ref pr \<noteq> ''master'' \<and> pr_base_ref pr \<noteq> ''main'' then
        ([Info ''PR not to master, skipping''], None)
      else if pr_draft pr then ([Info ''PR is a draft, skipping''], None)
      else
        let preRelease = \<not> pr_merged pr;
            branch = pr_head_ref pr;
            prNumber = pr_number pr
        in case find_pattern branch of
             None \<Rightarrow> ([Warning ''branch pattern not expected, skipping''], None)
           | Some p \<Rightarrow>
               if bump p = ''chore'' then ([], None)
               else
                 (case list_tags w of
                    Inl e \<Rightarrow> ([ListTags], Some e)
                  | Inr tags \<Rightarrow>
                      let new_tag = newTag tags branch (bump p) preRelease;
                          req = \<lparr>tag_name = new_tag, name = pr_title pr, body = pr_body pr,
                                 draft = False, prerelease_flag = preRelease,
                                 target_commitish =
                                   (if preRelease then pr_head_ref pr else pr_base_ref pr)\<rparr>;
                          es = [ListTags, Info ''tags:'', Info (join '','' tags),
                                Info (''firstValid: '' @
                                      (case firstValid tags of None \<Rightarrow> ''undefined''
                                       | Some t \<Rightarrow> t)),
                                Info (''newTag: '' @
                                      (case new_tag of None \<Rightarrow> ''null'' | Some t \<Rightarrow> t)),
                                CreateRelease req]
                      in (case create_release w req of
                            Inl e \<Rightarrow> (es, Some e)
                          | Inr status \<Rightarrow>
                              if status \<noteq> 201 \<and> prNumber > 0 then
                                (es @ [SetFailed ''Failed to create release''], None)
                              else
                                (es @ [SetOutput ''new_tag'' (js_of_tag new_tag),
                                       SetOutput ''pre_release'' (JBool preRelease),
                                       CreateComment prNumber
                                         (created_comment preRelease new_tag)],
                                 case create_comment w prNumber
                                        (created_comment preRelease new_tag) of
                                   Inl e \<Rightarrow> Some e
                                 | Inr _ \<Rightarrow> None))))"

text \<open>The body of the \<open>try\<close> block.\<close>

definition run_body :: "world \<Rightarrow> event \<Rightarrow> effect list \<times> string option" where
  "run_body w ev =
     (case extract_pr w ev of
        (es, Throw e) \<Rightarrow> (es, Some e)
      | (es, Return) \<Rightarrow> (es, None)
      | (es, Continue None) \<Rightarrow> (es @ [Warning ''PR not found''], None)
      | (es, Continue (Some pr)) \<Rightarrow>
          (case release_pr w pr of (es', r) \<Rightarrow> (es @ es', r)))"

text \<open>\<open>run\<close>: a thrown error is caught and reported with \<open>core.setFailed\<close>.\<close>

definition run :: "world \<Rightarrow> event \<Rightarrow> effect list" where
  "run w ev =
     (case run_body w ev of
        (es, None) \<Rightarrow> es
      | (es, Some msg) \<Rightarrow> es @ [SetFailed msg])"

section \<open>Notions of the specification\<close>

text \<open>
  A full release, in the words of the specification: the tag name parses as a semantic
  version, the version has no pre-release component, and its canonical form is the tag
  name itself.
\<close>

definition full_release :: "string \<Rightarrow> bool" where
  "full_release tag =
     (case parse tag of None \<Rightarrow> False | Some v \<Rightarrow> prerelease v = [] \<and> format v = tag)"

text \<open>The core of a version, how it is written, and its standard increments.\<close>

definition core :: "SemVer \<Rightarrow> nat \<times> nat \<times> nat" where
  "core v = (major v, minor v, patch v)"

definition format_core :: "nat \<times> nat \<times> nat \<Rightarrow> string" where
  "format_core c =
     (case c of (ma, mi, pa) \<Rightarrow>
        number_to_string ma @ ''.'' @ number_to_string mi @ ''.'' @ number_to_string pa)"

definition standard_increment :: "string \<Rightarrow> nat \<times> nat \<times> nat \<Rightarrow> nat \<times> nat \<times> nat" where
  "standard_increment kind c =
     (case c of (ma, mi, pa) \<Rightarrow>
        if kind = ''major'' then (ma + 1, 0, 0)
        else if kind = ''minor'' then (ma, mi + 1, 0)
        else (ma, mi, pa + 1))"

text \<open>
  The pull request an event is about: the one the client returns for the issue of a
  comment, or the one in the payload of a pull request event.
\<close>

definition event_pr :: "world \<Rightarrow> event \<Rightarrow> PullRequest option" where
  "event_pr w ev =
     (case ev of
        IssueComment action comment_body issue_number \<Rightarrow>
          (case pulls_get w issue_number of Inl e \<Rightarrow> None | Inr pr \<Rightarrow> Some pr)
      | PullRequestEvent action number pull_request \<Rightarrow> Some pull_request
      | OtherEvent _ \<Rightarrow> None)"

section \<open>Sample inputs\<close>

text \<open>
  A pull request into \<open>main\<close> that is not a draft, and a client that answers every call:
  it returns that pull request, the given tags and the given status.
\<close>

definition sample_pr :: "string \<Rightarrow> bool \<Rightarrow> int \<Rightarrow> PullRequest" where
  "sample_pr branch merged n =
     \<lparr>pr_number = n, pr_title = ''title'', pr_body = ''text'', pr_head_ref = branch,
      pr_base_ref = ''main'', pr_draft = False, pr_merged = merged\<rparr>"

definition sample_world :: "PullRequest \<Rightarrow> string list \<Rightarrow> int \<Rightarrow> world" where
  "sample_world pr tags status =
     \<lparr>pulls_get = (\<lambda>n. Inr pr), add_labels = (\<lambda>n l. Inr ()),
      create_comment = (\<lambda>n c. Inr ()), list_tags = Inr tags,
      create_release = (\<lambda>r. Inr status)\<rparr>"

section \<open>Evaluation and basic facts\<close>

lemmas semver_defs = parse_def new_SemVer_def match_FULL_def break_at_def trim_def
  white_space_def js_length_def continuation_byte_def astral_lead_byte_def
  numeric_identifier_def build_identifier_def prerelease_identifier_def
  is_digit_def is_letter_def to_number_def digit_val_def MAX_LENGTH_def MAX_SAFE_INTEGER_def
  prerelease_id_def format_def identifier_to_string_def number_to_string.simps

lemma find_filter_weaker: "(\<And>x. P x \<Longrightarrow> Q x) \<Longrightarrow> find Q (filter P xs) = find P xs"
  by (induction xs) auto

lemma parse_empty: "parse [] = None"
  by (simp add: semver_defs)

lemma new_SemVer_zero:
  "new_SemVer ''0.0.0'' = Some \<lparr>major = 0, minor = 0, patch = 0, prerelease = [], build = []\<rparr>"
  by (simp add: semver_defs)

lemma format_zero:
  "format \<lparr>major = 0, minor = 0, patch = 0, prerelease = [], build = []\<rparr> = ''0.0.0''"
  by (simp add: semver_defs)

section \<open>The baseline\<close>

text \<open>The filter of \<open>run\<close> keeps exactly the full releases.\<close>

lemma filter_is_full_release:
  "(semver_prerelease tag = None \<and> semver_valid tag = Some tag) = full_release tag"
  by (auto simp: semver_prerelease_def semver_valid_def full_release_def split: option.splits)

text \<open>The second test, of \<open>find\<close>, holds for every tag the filter kept.\<close>

lemma full_release_truthy: "full_release tag \<Longrightarrow> truthy (semver_valid tag)"
  by (cases "tag = []")
     (auto simp: full_release_def truthy_def semver_valid_def parse_empty split: option.splits)

lemma lastTag_find:
  "lastTag tags = (case find full_release tags of Some t \<Rightarrow> t | None \<Rightarrow> ''0.0.0'')"
proof -
  have "firstValid tags = find full_release tags"
    unfolding firstValid_def fullReleases_def filter_is_full_release
    by (rule find_filter_weaker) (rule full_release_truthy)
  then show ?thesis by (simp add: lastTag_def)
qed

lemma full_release_new_SemVer:
  "full_release tag \<Longrightarrow> \<exists>v. new_SemVer tag = Some v \<and> prerelease v = [] \<and> format v = tag"
  by (auto simp: full_release_def parse_def split: option.splits if_splits)

text \<open>The baseline is always a version that the increment can read.\<close>

lemma lastTag_parses:
  "\<exists>v. new_SemVer (lastTag tags) = Some v \<and> prerelease v = [] \<and> format v = lastTag tags"
proof (cases "find full_release tags")
  case None
  then have "lastTag tags = ''0.0.0''" by (simp add: lastTag_find)
  then show ?thesis using new_SemVer_zero format_zero by simp
next
  case (Some t)
  then have "full_release t" by (auto simp: find_Some_iff)
  moreover have "lastTag tags = t" using Some by (simp add: lastTag_find)
  ultimately show ?thesis using full_release_new_SemVer by simp
qed

lemma full_release_examples:
  "full_release ''1.2.3''" "\<not> full_release ''2.0.0-rc.1''" "\<not> full_release ''bogus''"
  by (simp_all add: full_release_def semver_defs)

text \<open>
  C1. The baseline is the first tag, in the order of the list, that is a full release
  (it parses as a semantic version, has no pre-release component, and is written in its
  canonical form); when the list has no full release the baseline is \<open>0.0.0\<close>. For the
  list \<open>1.2.3\<close>, \<open>2.0.0-rc.1\<close>, \<open>bogus\<close> it is \<open>1.2.3\<close>.
\<close>

theorem C1_baseline_first_full_release:
  "lastTag tags = (case find full_release tags of Some t \<Rightarrow> t | None \<Rightarrow> ''0.0.0'') \<and>
   lastTag [''1.2.3'', ''2.0.0-rc.1'', ''bogus''] = ''1.2.3''"
proof
  show "lastTag tags = (case find full_release tags of Some t \<Rightarrow> t | None \<Rightarrow> ''0.0.0'')"
    by (rule lastTag_find)
  show "lastTag [''1.2.3'', ''2.0.0-rc.1'', ''bogus''] = ''1.2.3''"
    by (simp add: lastTag_find full_release_examples)
qed

section \<open>Increments of the baseline\<close>

lemma number_to_string_0: "number_to_string 0 = ''0''"
  by (simp add: number_to_string.simps)

lemma number_to_string_digits: "set (number_to_string n) \<subseteq> set ''0123456789''"
proof (induction n rule: number_to_string.induct)
  case (1 n)
  have digit: "''0123456789'' ! k \<in> set ''0123456789''" if "k < 10" for k
    using that nth_mem [of k "''0123456789''"] by simp
  show ?case
  proof (cases "n < 10")
    case True
    then show ?thesis
      using digit [of n] by (subst number_to_string.simps) simp
  next
    case False
    have "n mod 10 < 10" by simp
    then show ?thesis
      using False "1.IH" digit [of "n mod 10"] by (subst number_to_string.simps) simp
  qed
qed

lemma format_core_no_hyphen: "CHR ''-'' \<notin> set (format_core c)"
proof -
  have "CHR ''-'' \<notin> set (number_to_string n)" for n
    using number_to_string_digits [of n] by auto
  then show ?thesis by (auto simp: format_core_def split: prod.splits)
qed

lemma SemVer_inc_plain:
  assumes "prerelease v = []"
  shows "SemVer_inc v ''major'' None = Some (v\<lparr>major := major v + 1, minor := 0, patch := 0\<rparr>)"
    and "SemVer_inc v ''minor'' None = Some (v\<lparr>minor := minor v + 1, patch := 0\<rparr>)"
    and "SemVer_inc v ''patch'' None = Some (v\<lparr>patch := patch v + 1\<rparr>)"
  using assms by (simp_all add: SemVer_inc_def inc_patch_def)

lemma SemVer_inc_pre:
  assumes "prerelease v = []" "rc \<noteq> []"
  shows "SemVer_inc v ''premajor'' (Some rc) =
           Some (v\<lparr>major := major v + 1, minor := 0, patch := 0,
                   prerelease := [Str rc, Num 0]\<rparr>)"
    and "SemVer_inc v ''preminor'' (Some rc) =
           Some (v\<lparr>minor := minor v + 1, patch := 0, prerelease := [Str rc, Num 0]\<rparr>)"
    and "SemVer_inc v ''prepatch'' (Some rc) =
           Some (v\<lparr>patch := patch v + 1, prerelease := [Str rc, Num 0]\<rparr>)"
  using assms by (simp_all add: SemVer_inc_def inc_patch_def inc_pre_def)

lemma format_no_prerelease: "prerelease v = [] \<Longrightarrow> format v = format_core (core v)"
  by (simp add: format_def format_core_def core_def)

lemma format_rc:
  "prerelease v = [Str rc, Num 0] \<Longrightarrow> format v = format_core (core v) @ ''-'' @ rc @ ''.0''"
  by (simp add: format_def format_core_def core_def identifier_to_string_def
      number_to_string_0)

lemma semver_inc_final:
  assumes "new_SemVer b = Some v" "prerelease v = []"
    and "kind \<in> {''patch'', ''minor'', ''major''}"
  shows "semver_inc b kind None = Some (format_core (standard_increment kind (core v)))"
  using assms
  by (auto simp: semver_inc_def SemVer_inc_plain format_no_prerelease core_def
      standard_increment_def)

lemma semver_inc_rc:
  assumes "new_SemVer b = Some v" "prerelease v = []"
    and "kind \<in> {''patch'', ''minor'', ''major''}" "rc \<noteq> []"
  shows "semver_inc b (''pre'' @ kind) (Some rc) =
           Some (format_core (standard_increment kind (core v)) @ ''-'' @ rc @ ''.0'')"
  using assms
  by (auto simp: semver_inc_def SemVer_inc_pre format_rc core_def standard_increment_def)

section \<open>Classification\<close>

lemma find_pattern_cases:
  "find_pattern branch =
     (if starts_with branch ''fix/'' then Some (branchTypes ! 0)
      else if starts_with branch ''feature/'' then Some (branchTypes ! 1)
      else if starts_with branch ''release/'' then Some (branchTypes ! 2)
      else if starts_with branch ''chore/'' then Some (branchTypes ! 3)
      else None)"
  by (simp add: find_pattern_def branchTypes_def test_def)

lemma rcs_empty_iff: "rcs tags branch = [] \<longleftrightarrow> (\<forall>t\<in>set tags. \<not> string_includes t (rcName branch))"
  by (auto simp: rcs_def filter_empty_conv)

lemma rcName_nonempty: "rcName branch \<noteq> []"
  by (simp add: rcName_def)

lemma replace_first_slash:
  "CHR ''/'' \<notin> set a \<Longrightarrow> replace (a @ CHR ''/'' # b) ''/'' ''-'' = a @ CHR ''-'' # b"
  by (induction a) auto

lemma starts_with_iff: "starts_with s p \<longleftrightarrow> (\<exists>r. s = p @ r)"
  by (induction s p rule: starts_with.induct) auto

lemma inc_examples:
  "semver_inc ''1.2.3'' ''major'' None = Some ''2.0.0''"
  "semver_inc ''0.0.0'' ''major'' None = Some ''1.0.0''"
  "semver_inc ''1.2.3'' ''preminor'' (Some ''rc-feature-x'') = Some ''1.3.0-rc-feature-x.0''"
  by (simp_all add: semver_inc_def SemVer_inc_def inc_pre_def inc_patch_def semver_defs)

text \<open>
  C5. Classification returns the first entry of \<open>branchTypes\<close>, in the order of the list,
  whose anchored pattern matches the branch name: a branch that starts with \<open>fix/\<close> gives
  bump \<open>patch\<close> and label \<open>fix\<close>, \<open>feature/\<close> gives \<open>minor\<close> and \<open>feature\<close>,
  \<open>release/\<close> gives \<open>major\<close> and \<open>release\<close>, and \<open>chore/\<close> gives \<open>chore\<close> and
  \<open>chore\<close>.
\<close>

theorem C5_classification:
  "(starts_with branch ''fix/'' \<longrightarrow>
      find_pattern branch = Some \<lparr>pattern = ''fix/'', bump = ''patch'', label = ''fix''\<rparr>) \<and>
   (starts_with branch ''feature/'' \<longrightarrow>
      find_pattern branch = Some \<lparr>pattern = ''feature/'', bump = ''minor'', label = ''feature''\<rparr>) \<and>
   (starts_with branch ''release/'' \<longrightarrow>
      find_pattern branch = Some \<lparr>pattern = ''release/'', bump = ''major'', label = ''release''\<rparr>) \<and>
   (starts_with branch ''chore/'' \<longrightarrow>
      find_pattern branch = Some \<lparr>pattern = ''chore/'', bump = ''chore'', label = ''chore''\<rparr>) \<and>
   (\<forall>i < length branchTypes.
      test (pattern (branchTypes ! i)) branch \<and>
      (\<forall>j < i. \<not> test (pattern (branchTypes ! j)) branch) \<longrightarrow>
      find_pattern branch = Some (branchTypes ! i))"
proof -
  have first: "\<forall>i < length branchTypes.
      test (pattern (branchTypes ! i)) branch \<and>
      (\<forall>j < i. \<not> test (pattern (branchTypes ! j)) branch) \<longrightarrow>
      find_pattern branch = Some (branchTypes ! i)"
    unfolding find_pattern_def by (auto simp: find_Some_iff)
  have "find_pattern branch = Some \<lparr>pattern = ''fix/'', bump = ''patch'', label = ''fix''\<rparr>"
    if "starts_with branch ''fix/''"
    using that by (simp add: find_pattern_cases branchTypes_def)
  moreover have "find_pattern branch = Some \<lparr>pattern = ''feature/'', bump = ''minor'', label = ''feature''\<rparr>"
    if "starts_with branch ''feature/''"
    using that by (auto simp: starts_with_iff find_pattern_cases branchTypes_def)
  moreover have "find_pattern branch = Some \<lparr>pattern = ''release/'', bump = ''major'', label = ''release''\<rparr>"
    if "starts_with branch ''release/''"
    using that by (auto simp: starts_with_iff find_pattern_cases branchTypes_def)
  moreover have "find_pattern branch = Some \<lparr>pattern = ''chore/'', bump = ''chore'', label = ''chore''\<rparr>"
    if "starts_with branch ''chore/''"
    using that by (auto simp: starts_with_iff find_pattern_cases branchTypes_def)
  ultimately show ?thesis using first by blast
qed

theorem C5_classification_witness:
  "starts_with ''fix/a'' ''fix/'' \<and> starts_with ''feature/b'' ''feature/'' \<and>
   starts_with ''release/c'' ''release/'' \<and> starts_with ''chore/d'' ''chore/'' \<and>
   map_option label (find_pattern ''fix/a'') = Some ''fix'' \<and>
   map_option bump (find_pattern ''feature/b'') = Some ''minor'' \<and>
   map_option bump (find_pattern ''release/c'') = Some ''major'' \<and>
   map_option bump (find_pattern ''chore/d'') = Some ''chore''"
  using C5_classification [of "''fix/a''"] C5_classification [of "''feature/b''"]
    C5_classification [of "''release/c''"] C5_classification [of "''chore/d''"]
  by simp

section \<open>Final releases\<close>

text \<open>
  C4. For a final release the new tag is the increment of the baseline by the bump kind.
  For \<open>patch\<close>, \<open>minor\<close> and \<open>major\<close> it is the standard increment of the core of
  the baseline, written without a pre-release suffix. With baseline \<open>1.2.3\<close> the kind
  \<open>major\<close> gives \<open>2.0.0\<close>, and with no tags a branch \<open>release/...\<close> gives \<open>1.0.0\<close>.
\<close>

theorem C4_final_increment:
  "newTag tags branch kind False = semver_inc (lastTag tags) kind None \<and>
   (kind \<in> {''patch'', ''minor'', ''major''} \<longrightarrow>
      (\<exists>v. new_SemVer (lastTag tags) = Some v \<and>
           newTag tags branch kind False =
             Some (format_core (standard_increment kind (core v))))) \<and>
   CHR ''-'' \<notin> set (format_core c) \<and>
   (lastTag tags = ''1.2.3'' \<longrightarrow> newTag tags branch ''major'' False = Some ''2.0.0'') \<and>
   (starts_with branch ''release/'' \<longrightarrow>
      (\<exists>p. find_pattern branch = Some p \<and> newTag [] branch (bump p) False = Some ''1.0.0''))"
proof -
  have eq: "newTag ts b k False = semver_inc (lastTag ts) k None" for ts b k
    by (simp add: newTag_def)
  have gen: "\<exists>v. new_SemVer (lastTag tags) = Some v \<and>
           newTag tags branch kind False =
             Some (format_core (standard_increment kind (core v)))"
    if "kind \<in> {''patch'', ''minor'', ''major''}"
    using lastTag_parses [of tags] semver_inc_final [OF _ _ that] eq by metis
  have ex1: "newTag tags branch ''major'' False = Some ''2.0.0''" if "lastTag tags = ''1.2.3''"
    using that by (simp add: eq inc_examples)
  have zero: "newTag [] branch ''major'' False = Some ''1.0.0''"
    by (simp add: eq lastTag_find inc_examples)
  have ex2: "\<exists>p. find_pattern branch = Some p \<and> newTag [] branch (bump p) False = Some ''1.0.0''"
    if "starts_with branch ''release/''"
    using that zero by (auto simp: starts_with_iff find_pattern_cases branchTypes_def)
  show ?thesis using eq gen format_core_no_hyphen ex1 ex2 by blast
qed

theorem C4_final_increment_witness:
  "''major'' \<in> {''patch'', ''minor'', ''major''} \<and>
   (\<exists>v. new_SemVer (lastTag [''1.2.3'', ''0.9.0'']) = Some v \<and>
        newTag [''1.2.3'', ''0.9.0''] ''release/v1'' ''major'' False =
          Some (format_core (standard_increment ''major'' (core v)))) \<and>
   lastTag [''1.2.3'', ''0.9.0''] = ''1.2.3'' \<and>
   newTag [''1.2.3'', ''0.9.0''] ''release/v1'' ''major'' False = Some ''2.0.0'' \<and>
   starts_with ''release/v1'' ''release/'' \<and>
   (\<exists>p. find_pattern ''release/v1'' = Some p \<and>
        newTag [] ''release/v1'' (bump p) False = Some ''1.0.0'')"
proof -
  have b: "lastTag [''1.2.3'', ''0.9.0''] = ''1.2.3''"
    by (simp add: lastTag_find full_release_examples)
  have s: "starts_with ''release/v1'' ''release/''" by simp
  show ?thesis
    using C4_final_increment [of "[''1.2.3'', ''0.9.0'']" "''release/v1''" "''major''"] b s
    by blast
qed

section \<open>A first release candidate\<close>

text \<open>
  C3. For a pre-release, when no tag contains the identifier of the branch (\<open>rc-\<close> and
  the branch name with its first \<open>/\<close> replaced by \<open>-\<close>), the new tag is the increment of
  the baseline by \<open>pre\<close> and the bump kind with that identifier: the core is the standard
  increment of the baseline and the pre-release is the identifier followed by \<open>0\<close>.
  Branch \<open>feature/x\<close> on baseline \<open>1.2.3\<close> gives \<open>1.3.0-rc-feature-x.0\<close>.
\<close>

theorem C3_fresh_rc:
  assumes "\<forall>t\<in>set tags. \<not> string_includes t (rcName branch)"
  shows "newTag tags branch kind True =
           semver_inc (lastTag tags) (''pre'' @ kind)
             (Some (''rc-'' @ replace branch ''/'' ''-'')) \<and>
         (\<forall>a b. branch = a @ ''/'' @ b \<and> CHR ''/'' \<notin> set a \<longrightarrow>
                rcName branch = ''rc-'' @ a @ ''-'' @ b) \<and>
         (kind \<in> {''patch'', ''minor'', ''major''} \<longrightarrow>
            (\<exists>v. new_SemVer (lastTag tags) = Some v \<and>
                 newTag tags branch kind True =
                   Some (format_core (standard_increment kind (core v)) @ ''-'' @
                         rcName branch @ ''.0''))) \<and>
         (branch = ''feature/x'' \<and> lastTag tags = ''1.2.3'' \<longrightarrow>
            newTag tags branch ''minor'' True = Some ''1.3.0-rc-feature-x.0'')"
proof -
  have none: "rcs tags branch = []" using assms by (simp add: rcs_empty_iff)
  have eq: "newTag tags branch k True =
              semver_inc (lastTag tags) (''pre'' @ k) (Some (rcName branch))" for k
    using none by (simp add: newTag_def)
  have name: "rcName branch = ''rc-'' @ a @ ''-'' @ b"
    if "branch = a @ ''/'' @ b" "CHR ''/'' \<notin> set a" for a b
    using that replace_first_slash [of a b] by (simp add: rcName_def)
  have gen: "\<exists>v. new_SemVer (lastTag tags) = Some v \<and>
                 newTag tags branch kind True =
                   Some (format_core (standard_increment kind (core v)) @ ''-'' @
                         rcName branch @ ''.0'')"
    if "kind \<in> {''patch'', ''minor'', ''major''}"
    using lastTag_parses [of tags] semver_inc_rc [OF _ _ that rcName_nonempty] eq by metis
  have ex: "newTag tags branch ''minor'' True = Some ''1.3.0-rc-feature-x.0''"
    if "branch = ''feature/x''" "lastTag tags = ''1.2.3''"
    using that eq [of "''minor''"] by (simp add: rcName_def inc_examples)
  show ?thesis using eq name gen ex by (simp add: rcName_def)
qed

theorem C3_fresh_rc_witness:
  "\<not> string_includes ''1.2.3'' (rcName ''feature/x'') \<and>
   \<not> string_includes ''bogus'' (rcName ''feature/x'') \<and>
   lastTag [''1.2.3'', ''bogus''] = ''1.2.3'' \<and>
   newTag [''1.2.3'', ''bogus''] ''feature/x'' ''minor'' True = Some ''1.3.0-rc-feature-x.0''"
proof -
  have h1: "\<not> string_includes ''1.2.3'' (rcName ''feature/x'')"
    and h2: "\<not> string_includes ''bogus'' (rcName ''feature/x'')"
    by (simp_all add: rcName_def)
  then have h: "\<forall>t\<in>set [''1.2.3'', ''bogus'']. \<not> string_includes t (rcName ''feature/x'')"
    by simp
  have b: "lastTag [''1.2.3'', ''bogus''] = ''1.2.3''"
    by (simp add: lastTag_find full_release_examples)
  from C3_fresh_rc [OF h, of "''minor''"] b
  have "newTag [''1.2.3'', ''bogus''] ''feature/x'' ''minor'' True = Some ''1.3.0-rc-feature-x.0''"
    by blast
  with h1 h2 b show ?thesis by blast
qed

section \<open>An existing release candidate\<close>

lemma bump_last_number_None: "bump_last_number ids = None \<longleftrightarrow> (\<forall>n. Num n \<notin> set ids)"
  by (induction ids) (auto split: option.splits pre_identifier.splits)

lemma bump_last_number_Some:
  "bump_last_number ids = Some ids' \<Longrightarrow>
     \<exists>a n b. ids = a @ Num n # b \<and> (\<forall>m. Num m \<notin> set b) \<and> ids' = a @ Num (n + 1) # b"
proof (induction ids arbitrary: ids')
  case Nil
  then show ?case by simp
next
  case (Cons i ids)
  show ?case
  proof (cases "bump_last_number ids")
    case None
    with Cons.prems obtain n where "i = Num n" "ids' = Num (n + 1) # ids"
      by (auto split: pre_identifier.splits)
    moreover have "\<forall>m. Num m \<notin> set ids" using None by (simp add: bump_last_number_None)
    ultimately have "i # ids = [] @ Num n # ids \<and> (\<forall>m. Num m \<notin> set ids) \<and>
        ids' = [] @ Num (n + 1) # ids" by simp
    then show ?thesis by blast
  next
    case (Some js)
    with Cons.prems have eq: "ids' = i # js" by simp
    from Cons.IH [OF Some] obtain a n b where
      "ids = a @ Num n # b" "\<forall>m. Num m \<notin> set b" "js = a @ Num (n + 1) # b" by blast
    then have "i # ids = (i # a) @ Num n # b \<and> (\<forall>m. Num m \<notin> set b) \<and>
        ids' = (i # a) @ Num (n + 1) # b" using eq by simp
    then show ?thesis by blast
  qed
qed

lemma find_hd_filter: "find P xs = Some t \<Longrightarrow> filter P xs \<noteq> [] \<and> hd (filter P xs) = t"
  by (induction xs) (auto split: if_splits)

lemma find_exists: "\<exists>t\<in>set xs. P t \<Longrightarrow> \<exists>t. find P xs = Some t"
  by (cases "find P xs") (auto simp: find_None_iff)

lemma newTag_existing:
  "find (\<lambda>t. string_includes t (rcName branch)) tags = Some t \<Longrightarrow>
     newTag tags branch kind True = semver_inc t ''prerelease'' None"
  using find_hd_filter [of "\<lambda>t. string_includes t (rcName branch)" tags t]
  by (simp add: newTag_def rcs_def)

lemma semver_inc_prerelease:
  assumes "new_SemVer t = Some v" "prerelease v \<noteq> []"
  shows "\<exists>ids. semver_inc t ''prerelease'' None =
            Some (format_core (core v) @ ''-'' @ join ''.'' (map identifier_to_string ids)) \<and>
          ((\<exists>a n b. prerelease v = a @ Num n # b \<and> (\<forall>m. Num m \<notin> set b) \<and>
                    ids = a @ Num (n + 1) # b) \<or>
           ((\<forall>m. Num m \<notin> set (prerelease v)) \<and> ids = prerelease v @ [Num 0]))"
proof (cases "bump_last_number (prerelease v)")
  case None
  then have "semver_inc t ''prerelease'' None =
      Some (format_core (core v) @ ''-'' @
            join ''.'' (map identifier_to_string (prerelease v @ [Num 0])))"
    using assms
    by (simp add: semver_inc_def SemVer_inc_def inc_pre_def format_def format_core_def core_def)
  moreover have "\<forall>m. Num m \<notin> set (prerelease v)"
    using None by (simp add: bump_last_number_None)
  ultimately show ?thesis by blast
next
  case (Some ids)
  from bump_last_number_Some [OF Some] obtain a n b where
    d: "prerelease v = a @ Num n # b" "\<forall>m. Num m \<notin> set b" "ids = a @ Num (n + 1) # b"
    by blast
  have "semver_inc t ''prerelease'' None =
      Some (format_core (core v) @ ''-'' @ join ''.'' (map identifier_to_string ids))"
    using assms Some d(3)
    by (simp add: semver_inc_def SemVer_inc_def inc_pre_def format_def format_core_def core_def)
  with d show ?thesis by blast
qed

lemma rc_examples:
  "semver_inc ''1.3.0-rc-feature-x.0'' ''prerelease'' None = Some ''1.3.0-rc-feature-x.1''"
  "semver_inc ''1.2.3+rc-feature-x'' ''prerelease'' None = Some ''1.2.4-0''"
  "semver_inc ''rc-feature-x'' ''prerelease'' None = None"
  "map_option core (new_SemVer ''1.3.0-rc-feature-x.0'') = Some (1, 3, 0)"
  "map_option core (new_SemVer ''1.3.0-rc-feature-x.1'') = Some (1, 3, 0)"
  "map_option core (new_SemVer ''1.2.3+rc-feature-x'') = Some (1, 2, 3)"
  "map_option core (new_SemVer ''1.2.4-0'') = Some (1, 2, 4)"
  by (simp_all add: semver_inc_def SemVer_inc_def inc_pre_def inc_patch_def semver_defs core_def)

lemma underscore_examples:
  "semver_inc ''0.0.0'' ''preminor'' (Some ''rc-feature-foo_bar'') =
     Some ''0.1.0-rc-feature-foo_bar.0''"
  "semver_inc ''0.1.0-rc-feature-foo_bar.0'' ''prerelease'' None = None"
  by (simp_all add: semver_inc_def SemVer_inc_def inc_pre_def inc_patch_def semver_defs)

lemma new_SemVer_prerelease_text:
  assumes "new_SemVer t = Some v" "prerelease v \<noteq> []"
  shows "\<exists>m1 m2 m3 p b. match_FULL (trim t) = Some (m1, m2, m3, Some p, b) \<and>
           prerelease v = map prerelease_id (split CHR ''.'' p)"
  using assms by (auto simp: new_SemVer_def split: if_splits option.splits prod.splits)

lemma large_counter_example:
  "map_option prerelease (new_SemVer ''1.0.0-rc-fix-a.9007199254740991'') =
     Some [Str ''rc-fix-a'', Str ''9007199254740991'']"
  "newTag [''1.0.0-rc-fix-a.9007199254740991''] ''fix/a'' ''patch'' True =
     Some ''1.0.0-rc-fix-a.9007199254740991.0''"
  "newTag [''1.0.0-rc-fix-a.9007199254740990''] ''fix/a'' ''patch'' True =
     Some ''1.0.0-rc-fix-a.9007199254740991''"
  by (simp_all add: newTag_def rcs_def rcName_def semver_inc_def SemVer_inc_def inc_pre_def
      inc_patch_def semver_defs)

lemma padded_tag_example:
  "newTag [[CHR 0xC2, CHR 0xA0] @ ''1.0.0-rc-fix-a.0''] ''fix/a'' ''patch'' True =
     Some ''1.0.0-rc-fix-a.1''"
  by (simp add: newTag_def rcs_def rcName_def semver_inc_def SemVer_inc_def inc_pre_def
      inc_patch_def semver_defs)

text \<open>
  C2, amended. For a pre-release, when some tag contains the identifier of the branch, the
  new tag is the \<open>prerelease\<close> increment of the first such tag in the order of the list;
  neither the bump kind nor the rest of the list (so neither the baseline) has an effect.
  When that tag parses as a version with a pre-release component, the core of the version
  is unchanged and only the pre-release changes. Of its identifiers, the library reads as
  numbers those that are decimal digits with a value below \<open>MAX_SAFE_INTEGER\<close>, and keeps
  the others as text: the last identifier that is such a number is increased by one, or
  \<open>0\<close> is appended when there is none.
\<close>

theorem C2_existing_rc:
  assumes "\<exists>t\<in>set tags. string_includes t (rcName branch)"
  shows "\<exists>t. find (\<lambda>t. string_includes t (rcName branch)) tags = Some t \<and>
           newTag tags branch kind True = semver_inc t ''prerelease'' None \<and>
           (\<forall>tags' kind'.
              find (\<lambda>t. string_includes t (rcName branch)) tags' = Some t \<longrightarrow>
              newTag tags' branch kind' True = newTag tags branch kind True) \<and>
           (\<forall>v. new_SemVer t = Some v \<and> prerelease v \<noteq> [] \<longrightarrow>
              (\<exists>m1 m2 m3 p b. match_FULL (trim t) = Some (m1, m2, m3, Some p, b) \<and>
                 prerelease v = map prerelease_id (split CHR ''.'' p)) \<and>
              (\<exists>ids. newTag tags branch kind True =
                       Some (format_core (core v) @ ''-'' @
                             join ''.'' (map identifier_to_string ids)) \<and>
                     ((\<exists>a n b. prerelease v = a @ Num n # b \<and> (\<forall>m. Num m \<notin> set b) \<and>
                               ids = a @ Num (n + 1) # b) \<or>
                      ((\<forall>m. Num m \<notin> set (prerelease v)) \<and>
                       ids = prerelease v @ [Num 0]))))"
proof -
  from assms obtain t where t: "find (\<lambda>t. string_includes t (rcName branch)) tags = Some t"
    using find_exists [of tags "\<lambda>t. string_includes t (rcName branch)"] by blast
  have eq: "newTag tags branch kind True = semver_inc t ''prerelease'' None"
    using t by (rule newTag_existing)
  have indep: "newTag tags' branch kind' True = newTag tags branch kind True"
    if "find (\<lambda>t. string_includes t (rcName branch)) tags' = Some t" for tags' kind'
    using newTag_existing [OF that] eq by simp
  have inc: "\<exists>ids. newTag tags branch kind True =
                       Some (format_core (core v) @ ''-'' @
                             join ''.'' (map identifier_to_string ids)) \<and>
                     ((\<exists>a n b. prerelease v = a @ Num n # b \<and> (\<forall>m. Num m \<notin> set b) \<and>
                               ids = a @ Num (n + 1) # b) \<or>
                      ((\<forall>m. Num m \<notin> set (prerelease v)) \<and>
                       ids = prerelease v @ [Num 0]))"
    if "new_SemVer t = Some v" "prerelease v \<noteq> []" for v
    using semver_inc_prerelease [OF that] eq by simp
  have groups: "\<exists>m1 m2 m3 p b. match_FULL (trim t) = Some (m1, m2, m3, Some p, b) \<and>
                 prerelease v = map prerelease_id (split CHR ''.'' p)"
    if "new_SemVer t = Some v" "prerelease v \<noteq> []" for v
    using that by (rule new_SemVer_prerelease_text)
  show ?thesis using t eq indep inc groups by blast
qed

theorem C2_existing_rc_witness:
  "string_includes ''1.3.0-rc-feature-x.0'' (rcName ''feature/x'') \<and>
   map_option prerelease (new_SemVer ''1.3.0-rc-feature-x.0'') =
     Some [Str ''rc-feature-x'', Num 0] \<and>
   newTag [''1.2.3'', ''1.3.0-rc-feature-x.0''] ''feature/x'' ''major'' True =
     Some ''1.3.0-rc-feature-x.1'' \<and>
   map_option core (new_SemVer ''1.3.0-rc-feature-x.0'') = Some (1, 3, 0) \<and>
   map_option core (new_SemVer ''1.3.0-rc-feature-x.1'') = Some (1, 3, 0) \<and>
   newTag [''1.0.0-rc-fix-a.9007199254740991''] ''fix/a'' ''patch'' True =
     Some ''1.0.0-rc-fix-a.9007199254740991.0''"
proof -
  have inc: "string_includes ''1.3.0-rc-feature-x.0'' (rcName ''feature/x'')"
    by (simp add: rcName_def)
  then have h: "\<exists>t\<in>set [''1.2.3'', ''1.3.0-rc-feature-x.0'']. string_includes t (rcName ''feature/x'')"
    by simp
  have f: "find (\<lambda>t. string_includes t (rcName ''feature/x'')) [''1.2.3'', ''1.3.0-rc-feature-x.0'']
            = Some ''1.3.0-rc-feature-x.0''"
    by (simp add: rcName_def)
  have p: "map_option prerelease (new_SemVer ''1.3.0-rc-feature-x.0'') =
     Some [Str ''rc-feature-x'', Num 0]"
    by (simp add: semver_defs)
  from C2_existing_rc [OF h, of "''major''"] f
  have "newTag [''1.2.3'', ''1.3.0-rc-feature-x.0''] ''feature/x'' ''major'' True =
          semver_inc ''1.3.0-rc-feature-x.0'' ''prerelease'' None"
    by auto
  then show ?thesis using inc p by (simp add: rc_examples large_counter_example)
qed

text \<open>
  The claim as first stated also promises an unchanged core for every tag that contains
  the identifier. A tag that carries the identifier as build metadata has no pre-release
  component, and its patch number is increased. A branch name with a character that a
  version cannot hold, such as \<open>_\<close>, gives a first release candidate that the library
  does not read again: the second request gives no tag at all.
\<close>

theorem C2_core_changes_counterexample:
  "string_includes ''1.2.3+rc-feature-x'' (rcName ''feature/x'') \<and>
   map_option core (new_SemVer ''1.2.3+rc-feature-x'') = Some (1, 2, 3) \<and>
   newTag [''1.2.3+rc-feature-x''] ''feature/x'' ''minor'' True = Some ''1.2.4-0'' \<and>
   map_option core (new_SemVer ''1.2.4-0'') = Some (1, 2, 4) \<and>
   newTag [] ''feature/foo_bar'' ''minor'' True = Some ''0.1.0-rc-feature-foo_bar.0'' \<and>
   string_includes ''0.1.0-rc-feature-foo_bar.0'' (rcName ''feature/foo_bar'') \<and>
   newTag [''0.1.0-rc-feature-foo_bar.0''] ''feature/foo_bar'' ''minor'' True = None"
proof -
  have a: "string_includes ''1.2.3+rc-feature-x'' (rcName ''feature/x'')"
    and b: "string_includes ''0.1.0-rc-feature-foo_bar.0'' (rcName ''feature/foo_bar'')"
    by (simp_all add: rcName_def)
  have "newTag [''1.2.3+rc-feature-x''] ''feature/x'' ''minor'' True = Some ''1.2.4-0''"
    using a by (simp add: newTag_def rcs_def rc_examples)
  moreover have "newTag [''0.1.0-rc-feature-foo_bar.0''] ''feature/foo_bar'' ''minor'' True = None"
    using b by (simp add: newTag_def rcs_def underscore_examples)
  moreover have "newTag [] ''feature/foo_bar'' ''minor'' True = Some ''0.1.0-rc-feature-foo_bar.0''"
    by (simp add: newTag_def rcs_def lastTag_find rcName_def underscore_examples)
  ultimately show ?thesis using a b by (simp add: rc_examples)
qed

section \<open>The run as a whole\<close>

lemma run_unfold:
  "run w ev =
     fst (extract_pr w ev) @
     (case snd (extract_pr w ev) of
        Throw e \<Rightarrow> [SetFailed e]
      | Return \<Rightarrow> []
      | Continue None \<Rightarrow> [Warning ''PR not found'']
      | Continue (Some pr) \<Rightarrow>
          fst (release_pr w pr) @
          (case snd (release_pr w pr) of None \<Rightarrow> [] | Some m \<Rightarrow> [SetFailed m]))"
  by (simp add: run_def run_body_def split: prod.splits step.splits option.splits)

lemma addLabel_effects:
  "addLabel w pr = (es, r) \<Longrightarrow> e \<in> set es \<Longrightarrow>
     (\<exists>n l. e = AddLabels n l) \<or> (\<exists>m. e = Warning m)"
  by (auto simp: addLabel_def split: option.splits)

lemma extract_pr_effects:
  "e \<in> set (fst (extract_pr w ev)) \<Longrightarrow>
     (\<exists>n. e = PullsGet n) \<or> (\<exists>n l. e = AddLabels n l) \<or> (\<exists>n c. e = CreateComment n c) \<or>
     (\<exists>m. e = Warning m)"
  by (auto simp: extract_pr_def dest: addLabel_effects
      split: event.splits if_splits sum.splits prod.splits option.splits)

lemma extract_pr_continue:
  assumes "extract_pr w ev = (es, Continue (Some pr))"
  shows "event_pr w ev = Some pr"
    and "\<forall>e\<in>set es. \<exists>n. e = PullsGet n"
    and "(\<exists>b n. ev = IssueComment ''created'' b n \<and> string_includes b ''#tag'' \<and>
                pulls_get w n = Inr pr \<and> es = [PullsGet n]) \<or>
         (\<exists>n. ev = PullRequestEvent ''closed'' n pr \<and> pr_merged pr \<and> es = [])"
  using assms
  by (auto simp: extract_pr_def event_pr_def
      split: event.splits if_splits sum.splits prod.splits option.splits)

lemma release_pr_CreateRelease:
  assumes "CreateRelease r \<in> set (fst (release_pr w pr))"
  shows "\<exists>p tags.
           (pr_base_ref pr = ''master'' \<or> pr_base_ref pr = ''main'') \<and> \<not> pr_draft pr \<and>
           find_pattern (pr_head_ref pr) = Some p \<and> bump p \<noteq> ''chore'' \<and>
           list_tags w = Inr tags \<and>
           r = \<lparr>tag_name = newTag tags (pr_head_ref pr) (bump p) (\<not> pr_merged pr),
                 name = pr_title pr, body = pr_body pr, draft = False,
                 prerelease_flag = (\<not> pr_merged pr),
                 target_commitish =
                   (if \<not> pr_merged pr then pr_head_ref pr else pr_base_ref pr)\<rparr>"
  using assms
  by (auto simp: release_pr_def Let_def split: if_splits option.splits sum.splits)

lemma run_CreateRelease:
  assumes "CreateRelease r \<in> set (run w ev)"
  shows "\<exists>es pr. extract_pr w ev = (es, Continue (Some pr)) \<and>
                 CreateRelease r \<in> set (fst (release_pr w pr))"
proof -
  have no: "CreateRelease r \<notin> set (fst (extract_pr w ev))"
    using extract_pr_effects [of "CreateRelease r" w ev] by auto
  show ?thesis
    using assms no
    by (cases "extract_pr w ev")
       (auto simp: run_unfold split: step.splits option.splits)
qed

lemma run_ListTags:
  assumes "ListTags \<in> set (run w ev)"
  shows "\<exists>es pr. extract_pr w ev = (es, Continue (Some pr)) \<and>
                 ListTags \<in> set (fst (release_pr w pr))"
proof -
  have no: "ListTags \<notin> set (fst (extract_pr w ev))"
    using extract_pr_effects [of ListTags w ev] by auto
  show ?thesis
    using assms no
    by (cases "extract_pr w ev")
       (auto simp: run_unfold split: step.splits option.splits)
qed

lemma run_SetOutput:
  assumes "SetOutput k v \<in> set (run w ev)"
  shows "\<exists>es pr. extract_pr w ev = (es, Continue (Some pr)) \<and>
                 SetOutput k v \<in> set (fst (release_pr w pr))"
proof -
  have no: "SetOutput k v \<notin> set (fst (extract_pr w ev))"
    using extract_pr_effects [of "SetOutput k v" w ev] by auto
  show ?thesis
    using assms no
    by (cases "extract_pr w ev")
       (auto simp: run_unfold split: step.splits option.splits)
qed

text \<open>What release_pr does when the branch is not released.\<close>

lemma release_pr_skip:
  assumes "find_pattern (pr_head_ref pr) = None \<or>
           (\<exists>p. find_pattern (pr_head_ref pr) = Some p \<and> bump p = ''chore'')"
  shows "release_pr w pr =
           (if pr_base_ref pr \<noteq> ''master'' \<and> pr_base_ref pr \<noteq> ''main''
            then [Info ''PR not to master, skipping'']
            else if pr_draft pr then [Info ''PR is a draft, skipping'']
            else if find_pattern (pr_head_ref pr) = None
            then [Warning ''branch pattern not expected, skipping'']
            else [], None)"
  using assms by (auto simp: release_pr_def Let_def)

lemma addLabel_list_tags: "addLabel (w\<lparr>list_tags := x\<rparr>) pr = addLabel w pr"
  by (simp add: addLabel_def split: option.splits)

lemma extract_pr_list_tags: "extract_pr (w\<lparr>list_tags := x\<rparr>) ev = extract_pr w ev"
  by (cases ev)
     (simp_all add: extract_pr_def addLabel_list_tags split: sum.splits prod.splits option.splits)

lemma release_pr_skip_list_tags:
  assumes "find_pattern (pr_head_ref pr) = None \<or>
           (\<exists>p. find_pattern (pr_head_ref pr) = Some p \<and> bump p = ''chore'')"
  shows "release_pr (w\<lparr>list_tags := x\<rparr>) pr = release_pr w pr"
  using assms by (simp add: release_pr_skip)

lemma run_skip:
  assumes "event_pr w ev = Some pr"
    and "find_pattern (pr_head_ref pr) = None \<or>
         (\<exists>p. find_pattern (pr_head_ref pr) = Some p \<and> bump p = ''chore'')"
  shows "ListTags \<notin> set (run w ev)"
    and "CreateRelease r \<notin> set (run w ev)"
    and "SetOutput k v \<notin> set (run w ev)"
    and "run (w\<lparr>list_tags := x\<rparr>) ev = run w ev"
    and "extract_pr w ev = (es, Continue (Some pr)) \<Longrightarrow> SetFailed m \<notin> set (run w ev)"
    and "extract_pr w ev = (es, Continue (Some pr)) \<Longrightarrow>
           run w ev = es @ fst (release_pr w pr)"
proof -
  have same: "pr' = pr" if "extract_pr w ev = (es', Continue (Some pr'))" for es' pr'
    using extract_pr_continue(1) [OF that] assms(1) by simp
  have skip: "release_pr w pr =
           (if pr_base_ref pr \<noteq> ''master'' \<and> pr_base_ref pr \<noteq> ''main''
            then [Info ''PR not to master, skipping'']
            else if pr_draft pr then [Info ''PR is a draft, skipping'']
            else if find_pattern (pr_head_ref pr) = None
            then [Warning ''branch pattern not expected, skipping'']
            else [], None)"
    by (rule release_pr_skip [OF assms(2)])
  show "ListTags \<notin> set (run w ev)"
  proof
    assume "ListTags \<in> set (run w ev)"
    from run_ListTags [OF this] obtain es' pr' where
      "extract_pr w ev = (es', Continue (Some pr'))" "ListTags \<in> set (fst (release_pr w pr'))"
      by blast
    then have "ListTags \<in> set (fst (release_pr w pr))" using same by blast
    then show False by (simp add: skip split: if_splits)
  qed
  show "CreateRelease r \<notin> set (run w ev)"
  proof
    assume "CreateRelease r \<in> set (run w ev)"
    from run_CreateRelease [OF this] obtain es' pr' where
      "extract_pr w ev = (es', Continue (Some pr'))"
      "CreateRelease r \<in> set (fst (release_pr w pr'))"
      by blast
    then have "CreateRelease r \<in> set (fst (release_pr w pr))" using same by blast
    then show False by (simp add: skip split: if_splits)
  qed
  show "SetOutput k v \<notin> set (run w ev)"
  proof
    assume "SetOutput k v \<in> set (run w ev)"
    from run_SetOutput [OF this] obtain es' pr' where
      "extract_pr w ev = (es', Continue (Some pr'))"
      "SetOutput k v \<in> set (fst (release_pr w pr'))"
      by blast
    then have "SetOutput k v \<in> set (fst (release_pr w pr))" using same by blast
    then show False by (simp add: skip split: if_splits)
  qed
  show "run (w\<lparr>list_tags := x\<rparr>) ev = run w ev"
  proof (cases "extract_pr w ev")
    case (Pair es' st)
    show ?thesis
    proof (cases "\<exists>pr'. st = Continue (Some pr')")
      case True
      then have st: "st = Continue (Some pr)" using same Pair by blast
      show ?thesis
        using Pair st release_pr_skip_list_tags [OF assms(2), where w = w and x = x]
        by (simp add: run_unfold extract_pr_list_tags)
    next
      case False
      then show ?thesis
        using Pair
        by (auto simp: run_unfold extract_pr_list_tags split: step.splits option.splits)
    qed
  qed
  show "SetFailed m \<notin> set (run w ev)" if "extract_pr w ev = (es, Continue (Some pr))"
    using that extract_pr_continue(2) [OF that]
    by (auto simp: run_unfold skip split: if_splits)
  show "run w ev = es @ fst (release_pr w pr)" if "extract_pr w ev = (es, Continue (Some pr))"
    using that by (simp add: run_unfold skip)
qed

text \<open>
  C6. When the branch of the pull request classifies as \<open>chore\<close>, the run lists no tags,
  creates no release and sets no output, and it is the same for every list of tags. Once
  the pull request is found the run reports no failure, and when the pull request goes
  into \<open>master\<close> or \<open>main\<close> and is not a draft the run does nothing more at all.
\<close>

theorem C6_chore_short_circuit:
  assumes "event_pr w ev = Some pr"
    and "find_pattern (pr_head_ref pr) = Some p" and "bump p = ''chore''"
  shows "ListTags \<notin> set (run w ev) \<and>
         (\<forall>r. CreateRelease r \<notin> set (run w ev)) \<and>
         (\<forall>k v. SetOutput k v \<notin> set (run w ev)) \<and>
         (\<forall>tags. run (w\<lparr>list_tags := tags\<rparr>) ev = run w ev) \<and>
         (\<forall>es. extract_pr w ev = (es, Continue (Some pr)) \<longrightarrow>
            (\<forall>m. SetFailed m \<notin> set (run w ev)) \<and>
            ((pr_base_ref pr = ''master'' \<or> pr_base_ref pr = ''main'') \<and> \<not> pr_draft pr \<longrightarrow>
               run w ev = es))"
proof -
  have c: "find_pattern (pr_head_ref pr) = None \<or>
           (\<exists>p. find_pattern (pr_head_ref pr) = Some p \<and> bump p = ''chore'')"
    using assms(2,3) by blast
  have "run w ev = es"
    if "extract_pr w ev = (es, Continue (Some pr))"
      "pr_base_ref pr = ''master'' \<or> pr_base_ref pr = ''main''" "\<not> pr_draft pr" for es
    using run_skip(6) [OF assms(1) c that(1)] that(2,3) assms(2)
    by (auto simp: release_pr_skip [OF c])
  then show ?thesis
    using run_skip(1-5) [OF assms(1) c] by blast
qed

lemma sample_extract:
  "extract_pr (sample_world pr tags status) (IssueComment ''created'' ''#tag'' n) =
     ([PullsGet n], Continue (Some pr))"
  "event_pr (sample_world pr tags status) (IssueComment ''created'' ''#tag'' n) = Some pr"
  by (simp_all add: extract_pr_def event_pr_def sample_world_def)

theorem C6_chore_short_circuit_witness:
  "event_pr (sample_world (sample_pr ''chore/deps'' False 7) [''1.0.0''] 201)
     (IssueComment ''created'' ''#tag'' 7) = Some (sample_pr ''chore/deps'' False 7) \<and>
   map_option bump (find_pattern (pr_head_ref (sample_pr ''chore/deps'' False 7))) =
     Some ''chore'' \<and>
   run (sample_world (sample_pr ''chore/deps'' False 7) [''1.0.0''] 201)
     (IssueComment ''created'' ''#tag'' 7) = [PullsGet 7]"
proof -
  let ?pr = "sample_pr ''chore/deps'' False 7"
  let ?w = "sample_world ?pr [''1.0.0''] 201"
  let ?ev = "IssueComment ''created'' ''#tag'' 7"
  have p: "find_pattern (pr_head_ref ?pr) =
             Some \<lparr>pattern = ''chore/'', bump = ''chore'', label = ''chore''\<rparr>"
    by (simp add: find_pattern_cases branchTypes_def sample_pr_def)
  have g: "pr_base_ref ?pr = ''main''" "\<not> pr_draft ?pr" by (simp_all add: sample_pr_def)
  from C6_chore_short_circuit [OF sample_extract(2) p] sample_extract(1) g
  have "run ?w ?ev = [PullsGet 7]" by simp
  then show ?thesis using p sample_extract(2) by simp
qed

text \<open>
  C7, amended. When the branch of the pull request matches none of the four patterns,
  classification finds nothing (a value, not an error), and the run lists no tags, creates
  no release and sets no output. Once the pull request is found the run reports no
  failure, and when the pull request goes into \<open>master\<close> or \<open>main\<close> and is not a draft
  the run ends with the warning. For an opened pull request \<open>addLabel\<close> gives the same
  warning, and the run goes on to post its comment.
\<close>

theorem C7_unexpected_branch:
  assumes "\<not> starts_with (pr_head_ref pr) ''fix/''"
    and "\<not> starts_with (pr_head_ref pr) ''feature/''"
    and "\<not> starts_with (pr_head_ref pr) ''release/''"
    and "\<not> starts_with (pr_head_ref pr) ''chore/''"
    and "event_pr w ev = Some pr"
  shows "find_pattern (pr_head_ref pr) = None \<and>
         ListTags \<notin> set (run w ev) \<and>
         (\<forall>r. CreateRelease r \<notin> set (run w ev)) \<and>
         (\<forall>k v. SetOutput k v \<notin> set (run w ev)) \<and>
         (\<forall>es. extract_pr w ev = (es, Continue (Some pr)) \<longrightarrow>
            (\<forall>m. SetFailed m \<notin> set (run w ev)) \<and>
            ((pr_base_ref pr = ''master'' \<or> pr_base_ref pr = ''main'') \<and> \<not> pr_draft pr \<longrightarrow>
               run w ev = es @ [Warning ''branch pattern not expected, skipping''])) \<and>
         (\<forall>n. ev = PullRequestEvent ''opened'' n pr \<longrightarrow>
            run w ev =
              [Warning ''branch pattern not expected, skipping'',
               CreateComment n opened_comment] @
              (case create_comment w n opened_comment of
                 Inl e \<Rightarrow> [SetFailed e] | Inr _ \<Rightarrow> []))"
proof -
  have none: "find_pattern (pr_head_ref pr) = None"
    using assms(1-4) by (simp add: find_pattern_cases)
  then have c: "find_pattern (pr_head_ref pr) = None \<or>
           (\<exists>p. find_pattern (pr_head_ref pr) = Some p \<and> bump p = ''chore'')"
    by blast
  have warn: "run w ev = es @ [Warning ''branch pattern not expected, skipping'']"
    if "extract_pr w ev = (es, Continue (Some pr))"
      "pr_base_ref pr = ''master'' \<or> pr_base_ref pr = ''main''" "\<not> pr_draft pr" for es
    using run_skip(6) [OF assms(5) c that(1)] that(2,3) none
    by (auto simp: release_pr_skip [OF c])
  have opened: "run w ev =
              [Warning ''branch pattern not expected, skipping'',
               CreateComment n opened_comment] @
              (case create_comment w n opened_comment of
                 Inl e \<Rightarrow> [SetFailed e] | Inr _ \<Rightarrow> [])"
    if "ev = PullRequestEvent ''opened'' n pr" for n
    using that none
    by (simp add: run_unfold extract_pr_def addLabel_def split: sum.splits)
  show ?thesis
    using none warn opened run_skip(1-5) [OF assms(5) c] by blast
qed

theorem C7_unexpected_branch_witness:
  "\<not> starts_with (pr_head_ref (sample_pr ''hotfix/y'' False 7)) ''fix/'' \<and>
   \<not> starts_with (pr_head_ref (sample_pr ''hotfix/y'' False 7)) ''feature/'' \<and>
   \<not> starts_with (pr_head_ref (sample_pr ''hotfix/y'' False 7)) ''release/'' \<and>
   \<not> starts_with (pr_head_ref (sample_pr ''hotfix/y'' False 7)) ''chore/'' \<and>
   event_pr (sample_world (sample_pr ''hotfix/y'' False 7) [''1.0.0''] 201)
     (IssueComment ''created'' ''#tag'' 7) = Some (sample_pr ''hotfix/y'' False 7) \<and>
   find_pattern ''hotfix/y'' = None \<and>
   run (sample_world (sample_pr ''hotfix/y'' False 7) [''1.0.0''] 201)
     (IssueComment ''created'' ''#tag'' 7) =
     [PullsGet 7, Warning ''branch pattern not expected, skipping'']"
proof -
  let ?pr = "sample_pr ''hotfix/y'' False 7"
  let ?w = "sample_world ?pr [''1.0.0''] 201"
  let ?ev = "IssueComment ''created'' ''#tag'' 7"
  have h: "\<not> starts_with (pr_head_ref ?pr) ''fix/''"
    "\<not> starts_with (pr_head_ref ?pr) ''feature/''"
    "\<not> starts_with (pr_head_ref ?pr) ''release/''"
    "\<not> starts_with (pr_head_ref ?pr) ''chore/''"
    by (simp_all add: sample_pr_def)
  have g: "pr_base_ref ?pr = ''main''" "\<not> pr_draft ?pr" "pr_head_ref ?pr = ''hotfix/y''"
    by (simp_all add: sample_pr_def)
  from C7_unexpected_branch [OF h sample_extract(2)] sample_extract(1) g
  have "find_pattern ''hotfix/y'' = None \<and>
        run ?w ?ev = [PullsGet 7, Warning ''branch pattern not expected, skipping'']"
    by simp
  then show ?thesis using h sample_extract(2) by simp
qed

text \<open>
  The claim as first stated promises the warning for every such branch. The base branch
  and the draft flag of the pull request are tested before the branch name: a draft, or a
  pull request into another branch, is skipped with an informational message and the
  warning is not given.
\<close>

theorem C7_gate_skip_counterexample:
  "find_pattern ''hotfix/y'' = None \<and>
   run (sample_world ((sample_pr ''hotfix/y'' False 7)\<lparr>pr_draft := True\<rparr>) [''1.0.0''] 201)
     (IssueComment ''created'' ''#tag'' 7) =
     [PullsGet 7, Info ''PR is a draft, skipping''] \<and>
   run (sample_world ((sample_pr ''hotfix/y'' False 7)\<lparr>pr_base_ref := ''develop''\<rparr>)
          [''1.0.0''] 201)
     (IssueComment ''created'' ''#tag'' 7) =
     [PullsGet 7, Info ''PR not to master, skipping'']"
  by (simp add: find_pattern_cases run_def run_body_def extract_pr_def release_pr_def
      sample_world_def sample_pr_def)

section \<open>Sample runs\<close>

lemmas run_defs = run_def run_body_def extract_pr_def release_pr_def sample_world_def
  sample_pr_def find_pattern_cases branchTypes_def Let_def created_comment_def js_of_tag_def

lemma sample_newTag:
  "newTag [''1.2.3''] ''feature/x'' ''minor'' True = Some ''1.3.0-rc-feature-x.0''"
  "newTag [''1.2.3''] ''feature/x'' ''minor'' False = Some ''1.3.0''"
  "firstValid [''1.2.3''] = Some ''1.2.3''"
proof -
  have inc: "semver_inc ''1.2.3'' ''minor'' None = Some ''1.3.0''"
    by (simp add: semver_inc_def SemVer_inc_def inc_pre_def inc_patch_def semver_defs)
  have b: "lastTag [''1.2.3''] = ''1.2.3''"
    by (simp add: lastTag_find full_release_examples)
  show "newTag [''1.2.3''] ''feature/x'' ''minor'' True = Some ''1.3.0-rc-feature-x.0''"
    by (simp add: newTag_def rcs_def rcName_def b inc_examples)
  show "newTag [''1.2.3''] ''feature/x'' ''minor'' False = Some ''1.3.0''"
    by (simp add: newTag_def b inc)
  show "firstValid [''1.2.3''] = Some ''1.2.3''"
    using full_release_truthy [OF full_release_examples(1)]
    by (simp add: firstValid_def fullReleases_def filter_is_full_release full_release_examples)
qed

lemma sample_run_merged:
  "run (sample_world (sample_pr ''feature/x'' True 7) [''1.2.3''] 201)
     (PullRequestEvent ''closed'' 7 (sample_pr ''feature/x'' True 7)) =
   [ListTags, Info ''tags:'', Info ''1.2.3'', Info ''firstValid: 1.2.3'', Info ''newTag: 1.3.0'',
    CreateRelease \<lparr>tag_name = Some ''1.3.0'', name = ''title'', body = ''text'', draft = False,
      prerelease_flag = False, target_commitish = ''main''\<rparr>,
    SetOutput ''new_tag'' (JString ''1.3.0''), SetOutput ''pre_release'' (JBool False),
    CreateComment 7 '':label: Release `1.3.0` created.'']"
  by (simp add: run_defs sample_newTag)

lemma sample_run_comment:
  "run (sample_world (sample_pr ''feature/x'' False 7) [''1.2.3''] 201)
     (IssueComment ''created'' ''#tag'' 7) =
   [PullsGet 7, ListTags, Info ''tags:'', Info ''1.2.3'', Info ''firstValid: 1.2.3'',
    Info ''newTag: 1.3.0-rc-feature-x.0'',
    CreateRelease \<lparr>tag_name = Some ''1.3.0-rc-feature-x.0'', name = ''title'', body = ''text'',
      draft = False, prerelease_flag = True, target_commitish = ''feature/x''\<rparr>,
    SetOutput ''new_tag'' (JString ''1.3.0-rc-feature-x.0''),
    SetOutput ''pre_release'' (JBool True),
    CreateComment 7 '':label: Pre-release `1.3.0-rc-feature-x.0` created.'']"
  by (simp add: run_defs sample_newTag)

lemma sample_run_rejected:
  "run (sample_world (sample_pr ''feature/x'' True n) [''1.2.3''] 500)
     (IssueComment ''created'' ''#tag'' n) =
   [PullsGet n, ListTags, Info ''tags:'', Info ''1.2.3'', Info ''firstValid: 1.2.3'',
    Info ''newTag: 1.3.0'',
    CreateRelease \<lparr>tag_name = Some ''1.3.0'', name = ''title'', body = ''text'', draft = False,
      prerelease_flag = False, target_commitish = ''main''\<rparr>] @
   (if 0 < n then [SetFailed ''Failed to create release'']
    else [SetOutput ''new_tag'' (JString ''1.3.0''), SetOutput ''pre_release'' (JBool False),
          CreateComment n '':label: Release `1.3.0` created.''])"
  by (simp add: run_defs sample_newTag)

section \<open>Releases\<close>

lemma run_release_facts:
  assumes "CreateRelease r \<in> set (run w ev)"
  shows "\<exists>es pr tags p. extract_pr w ev = (es, Continue (Some pr)) \<and>
         event_pr w ev = Some pr \<and> list_tags w = Inr tags \<and>
         find_pattern (pr_head_ref pr) = Some p \<and>
         CreateRelease r \<in> set (fst (release_pr w pr)) \<and>
         prerelease_flag r = (\<not> pr_merged pr) \<and>
         tag_name r = newTag tags (pr_head_ref pr) (bump p) (\<not> pr_merged pr)"
proof -
  from run_CreateRelease [OF assms] obtain es pr where
    e: "extract_pr w ev = (es, Continue (Some pr))"
    and c: "CreateRelease r \<in> set (fst (release_pr w pr))" by blast
  from release_pr_CreateRelease [OF c] obtain p tags where
    "find_pattern (pr_head_ref pr) = Some p" "list_tags w = Inr tags"
    "r = \<lparr>tag_name = newTag tags (pr_head_ref pr) (bump p) (\<not> pr_merged pr),
               name = pr_title pr, body = pr_body pr, draft = False,
               prerelease_flag = (\<not> pr_merged pr),
               target_commitish =
                 (if \<not> pr_merged pr then pr_head_ref pr else pr_base_ref pr)\<rparr>"
    by blast
  then show ?thesis using e c extract_pr_continue(1) [OF e] by auto
qed

text \<open>
  C10. Every release a run creates has its pre-release flag equal to the negation of the
  merged flag of the pull request, and its tag is computed with that flag. A release that
  comes from a pull request event comes from a closed and merged pull request and is not
  a pre-release; a pre-release comes from a created comment that contains \<open>#tag\<close> on a
  pull request that is not merged.
\<close>

theorem C10_prerelease_is_not_merged:
  "(\<forall>r. CreateRelease r \<in> set (run w ev) \<longrightarrow>
      (\<exists>pr tags p. event_pr w ev = Some pr \<and> list_tags w = Inr tags \<and>
         find_pattern (pr_head_ref pr) = Some p \<and>
         prerelease_flag r = (\<not> pr_merged pr) \<and>
         tag_name r = newTag tags (pr_head_ref pr) (bump p) (\<not> pr_merged pr))) \<and>
   (\<forall>r a n pr. ev = PullRequestEvent a n pr \<and> CreateRelease r \<in> set (run w ev) \<longrightarrow>
      a = ''closed'' \<and> pr_merged pr \<and> \<not> prerelease_flag r) \<and>
   (\<forall>r. CreateRelease r \<in> set (run w ev) \<and> prerelease_flag r \<longrightarrow>
      (\<exists>b n pr. ev = IssueComment ''created'' b n \<and> string_includes b ''#tag'' \<and>
         pulls_get w n = Inr pr \<and> \<not> pr_merged pr))"
proof -
  have main: "\<exists>es pr tags p. extract_pr w ev = (es, Continue (Some pr)) \<and>
         event_pr w ev = Some pr \<and> list_tags w = Inr tags \<and>
         find_pattern (pr_head_ref pr) = Some p \<and>
         prerelease_flag r = (\<not> pr_merged pr) \<and>
         tag_name r = newTag tags (pr_head_ref pr) (bump p) (\<not> pr_merged pr)"
    if "CreateRelease r \<in> set (run w ev)" for r
  proof -
    from run_CreateRelease [OF that] obtain es pr where
      e: "extract_pr w ev = (es, Continue (Some pr))"
      and c: "CreateRelease r \<in> set (fst (release_pr w pr))" by blast
    from release_pr_CreateRelease [OF c] obtain p tags where
      "find_pattern (pr_head_ref pr) = Some p" "list_tags w = Inr tags"
      "r = \<lparr>tag_name = newTag tags (pr_head_ref pr) (bump p) (\<not> pr_merged pr),
                 name = pr_title pr, body = pr_body pr, draft = False,
                 prerelease_flag = (\<not> pr_merged pr),
                 target_commitish =
                   (if \<not> pr_merged pr then pr_head_ref pr else pr_base_ref pr)\<rparr>"
      by blast
    then show ?thesis using e extract_pr_continue(1) [OF e] by auto
  qed
  have a: "\<exists>pr tags p. event_pr w ev = Some pr \<and> list_tags w = Inr tags \<and>
         find_pattern (pr_head_ref pr) = Some p \<and>
         prerelease_flag r = (\<not> pr_merged pr) \<and>
         tag_name r = newTag tags (pr_head_ref pr) (bump p) (\<not> pr_merged pr)"
    if "CreateRelease r \<in> set (run w ev)" for r
    using main [OF that] by blast
  have b: "a = ''closed'' \<and> pr_merged pr \<and> \<not> prerelease_flag r"
    if "ev = PullRequestEvent a n pr" "CreateRelease r \<in> set (run w ev)" for r a n pr
  proof -
    from main [OF that(2)] obtain es pr' where
      e: "extract_pr w ev = (es, Continue (Some pr'))"
      and f: "prerelease_flag r = (\<not> pr_merged pr')" by blast
    from extract_pr_continue(3) [OF e] that(1) show ?thesis using f by auto
  qed
  have c: "\<exists>b n pr. ev = IssueComment ''created'' b n \<and> string_includes b ''#tag'' \<and>
         pulls_get w n = Inr pr \<and> \<not> pr_merged pr"
    if "CreateRelease r \<in> set (run w ev)" "prerelease_flag r" for r
  proof -
    from main [OF that(1)] obtain es pr' where
      e: "extract_pr w ev = (es, Continue (Some pr'))"
      and f: "prerelease_flag r = (\<not> pr_merged pr')" by blast
    from extract_pr_continue(3) [OF e] that(2) f show ?thesis by auto
  qed
  show ?thesis using a b c by blast
qed

theorem C10_prerelease_is_not_merged_witness:
  "CreateRelease \<lparr>tag_name = Some ''1.3.0'', name = ''title'', body = ''text'', draft = False,
      prerelease_flag = False, target_commitish = ''main''\<rparr>
     \<in> set (run (sample_world (sample_pr ''feature/x'' True 7) [''1.2.3''] 201)
              (PullRequestEvent ''closed'' 7 (sample_pr ''feature/x'' True 7))) \<and>
   pr_merged (sample_pr ''feature/x'' True 7) \<and>
   CreateRelease \<lparr>tag_name = Some ''1.3.0-rc-feature-x.0'', name = ''title'', body = ''text'',
      draft = False, prerelease_flag = True, target_commitish = ''feature/x''\<rparr>
     \<in> set (run (sample_world (sample_pr ''feature/x'' False 7) [''1.2.3''] 201)
              (IssueComment ''created'' ''#tag'' 7)) \<and>
   (\<exists>b n pr. IssueComment ''created'' ''#tag'' 7 = IssueComment ''created'' b n \<and>
      string_includes b ''#tag'' \<and>
      pulls_get (sample_world (sample_pr ''feature/x'' False 7) [''1.2.3''] 201) n = Inr pr \<and>
      \<not> pr_merged pr)"
proof -
  let ?r1 = "\<lparr>tag_name = Some ''1.3.0'', name = ''title'', body = ''text'', draft = False,
      prerelease_flag = False, target_commitish = ''main''\<rparr>"
  let ?r2 = "\<lparr>tag_name = Some ''1.3.0-rc-feature-x.0'', name = ''title'', body = ''text'',
      draft = False, prerelease_flag = True, target_commitish = ''feature/x''\<rparr>"
  let ?w1 = "sample_world (sample_pr ''feature/x'' True 7) [''1.2.3''] 201"
  let ?w2 = "sample_world (sample_pr ''feature/x'' False 7) [''1.2.3''] 201"
  let ?e1 = "PullRequestEvent ''closed'' 7 (sample_pr ''feature/x'' True 7)"
  let ?e2 = "IssueComment ''created'' ''#tag'' 7"
  have m1: "CreateRelease ?r1 \<in> set (run ?w1 ?e1)" by (simp add: sample_run_merged)
  have m2: "CreateRelease ?r2 \<in> set (run ?w2 ?e2)" by (simp add: sample_run_comment)
  have f2: "prerelease_flag ?r2" by simp
  from C10_prerelease_is_not_merged [of ?w1 ?e1] m1
  have a: "pr_merged (sample_pr ''feature/x'' True 7)" by blast
  from C10_prerelease_is_not_merged [of ?w2 ?e2] m2 f2
  have b: "\<exists>b n pr. ?e2 = IssueComment ''created'' b n \<and> string_includes b ''#tag'' \<and>
      pulls_get ?w2 n = Inr pr \<and> \<not> pr_merged pr" by blast
  show ?thesis using m1 m2 a b by blast
qed

lemma release_pr_after_release:
  assumes "CreateRelease r \<in> set (fst (release_pr w pr))"
  shows "\<exists>pre. (\<forall>e\<in>set pre. e = ListTags \<or> (\<exists>m. e = Info m)) \<and>
         release_pr w pr =
           (case create_release w r of
              Inl e \<Rightarrow> (pre @ [CreateRelease r], Some e)
            | Inr status \<Rightarrow>
                if status \<noteq> 201 \<and> pr_number pr > 0
                then (pre @ [CreateRelease r, SetFailed ''Failed to create release''], None)
                else (pre @ [CreateRelease r,
                             SetOutput ''new_tag'' (js_of_tag (tag_name r)),
                             SetOutput ''pre_release'' (JBool (prerelease_flag r)),
                             CreateComment (pr_number pr)
                               (created_comment (prerelease_flag r) (tag_name r))],
                      case create_comment w (pr_number pr)
                             (created_comment (prerelease_flag r) (tag_name r)) of
                        Inl e \<Rightarrow> Some e | Inr _ \<Rightarrow> None))"
proof -
  from release_pr_CreateRelease [OF assms] obtain p tags where
    f: "pr_base_ref pr = ''master'' \<or> pr_base_ref pr = ''main''" "\<not> pr_draft pr"
      "find_pattern (pr_head_ref pr) = Some p" "bump p \<noteq> ''chore''"
      "list_tags w = Inr tags"
    and r: "r = \<lparr>tag_name = newTag tags (pr_head_ref pr) (bump p) (\<not> pr_merged pr),
               name = pr_title pr, body = pr_body pr, draft = False,
               prerelease_flag = (\<not> pr_merged pr),
               target_commitish =
                 (if \<not> pr_merged pr then pr_head_ref pr else pr_base_ref pr)\<rparr>"
    by blast
  let ?pre = "[ListTags, Info ''tags:'', Info (join '','' tags),
               Info (''firstValid: '' @
                     (case firstValid tags of None \<Rightarrow> ''undefined'' | Some t \<Rightarrow> t)),
               Info (''newTag: '' @
                     (case tag_name r of None \<Rightarrow> ''null'' | Some t \<Rightarrow> t))]"
  have "release_pr w pr =
           (case create_release w r of
              Inl e \<Rightarrow> (?pre @ [CreateRelease r], Some e)
            | Inr status \<Rightarrow>
                if status \<noteq> 201 \<and> pr_number pr > 0
                then (?pre @ [CreateRelease r, SetFailed ''Failed to create release''], None)
                else (?pre @ [CreateRelease r,
                             SetOutput ''new_tag'' (js_of_tag (tag_name r)),
                             SetOutput ''pre_release'' (JBool (prerelease_flag r)),
                             CreateComment (pr_number pr)
                               (created_comment (prerelease_flag r) (tag_name r))],
                      case create_comment w (pr_number pr)
                             (created_comment (prerelease_flag r) (tag_name r)) of
                        Inl e \<Rightarrow> Some e | Inr _ \<Rightarrow> None))"
    using f unfolding r by (auto simp: release_pr_def Let_def split: sum.splits)
  moreover have "\<forall>e\<in>set ?pre. e = ListTags \<or> (\<exists>m. e = Info m)" by simp
  ultimately show ?thesis by blast
qed

text \<open>
  C9. When the release sink answers with a status other than 201: if the number of the
  pull request is positive the run ends with the failure \<open>Failed to create release\<close>,
  sets no output and posts no comment; otherwise the status is ignored: the run sets both
  outputs and posts the comment, and reports a failure only if posting the comment throws.
\<close>

theorem C9_release_status:
  assumes "event_pr w ev = Some pr" and "CreateRelease r \<in> set (run w ev)"
    and "create_release w r = Inr status" and "status \<noteq> 201"
  shows "(0 < pr_number pr \<longrightarrow>
            (\<exists>pre. run w ev = pre @ [CreateRelease r, SetFailed ''Failed to create release'']) \<and>
            (\<forall>k v. SetOutput k v \<notin> set (run w ev)) \<and>
            (\<forall>n c. CreateComment n c \<notin> set (run w ev))) \<and>
         (\<not> 0 < pr_number pr \<longrightarrow>
            (\<exists>pre. (\<forall>m. SetFailed m \<notin> set pre) \<and>
               run w ev =
                 pre @
                 [CreateRelease r,
                  SetOutput ''new_tag'' (js_of_tag (tag_name r)),
                  SetOutput ''pre_release'' (JBool (prerelease_flag r)),
                  CreateComment (pr_number pr)
                    (created_comment (prerelease_flag r) (tag_name r))] @
                 (case create_comment w (pr_number pr)
                         (created_comment (prerelease_flag r) (tag_name r)) of
                    Inl e \<Rightarrow> [SetFailed e] | Inr _ \<Rightarrow> [])))"
proof -
  from run_release_facts [OF assms(2)] obtain es pr' where
    e: "extract_pr w ev = (es, Continue (Some pr'))"
    and "event_pr w ev = Some pr'"
    and "CreateRelease r \<in> set (fst (release_pr w pr'))" by blast
  with assms(1) have e: "extract_pr w ev = (es, Continue (Some pr))"
    and c: "CreateRelease r \<in> set (fst (release_pr w pr))" by simp_all
  have es: "\<forall>e\<in>set es. \<exists>n. e = PullsGet n" by (rule extract_pr_continue(2) [OF e])
  from release_pr_after_release [OF c] assms(3) obtain pre where
    pre: "\<forall>e\<in>set pre. e = ListTags \<or> (\<exists>m. e = Info m)"
    and rel: "release_pr w pr =
       (if status \<noteq> 201 \<and> pr_number pr > 0
        then (pre @ [CreateRelease r, SetFailed ''Failed to create release''], None)
        else (pre @ [CreateRelease r,
                     SetOutput ''new_tag'' (js_of_tag (tag_name r)),
                     SetOutput ''pre_release'' (JBool (prerelease_flag r)),
                     CreateComment (pr_number pr)
                       (created_comment (prerelease_flag r) (tag_name r))],
              case create_comment w (pr_number pr)
                     (created_comment (prerelease_flag r) (tag_name r)) of
                Inl e \<Rightarrow> Some e | Inr _ \<Rightarrow> None))"
    by auto
  have pos: "(\<exists>pre. run w ev = pre @ [CreateRelease r, SetFailed ''Failed to create release'']) \<and>
            (\<forall>k v. SetOutput k v \<notin> set (run w ev)) \<and>
            (\<forall>n c. CreateComment n c \<notin> set (run w ev))"
    if "0 < pr_number pr"
  proof -
    have run: "run w ev = (es @ pre) @ [CreateRelease r, SetFailed ''Failed to create release'']"
      using e rel that assms(4) by (simp add: run_unfold)
    have "SetOutput k v \<notin> set (run w ev)" for k v
      unfolding run using es pre by auto
    moreover have "CreateComment n c \<notin> set (run w ev)" for n c
      unfolding run using es pre by auto
    ultimately show ?thesis using run by blast
  qed
  have nonpos: "\<exists>pre. (\<forall>m. SetFailed m \<notin> set pre) \<and>
               run w ev =
                 pre @
                 [CreateRelease r,
                  SetOutput ''new_tag'' (js_of_tag (tag_name r)),
                  SetOutput ''pre_release'' (JBool (prerelease_flag r)),
                  CreateComment (pr_number pr)
                    (created_comment (prerelease_flag r) (tag_name r))] @
                 (case create_comment w (pr_number pr)
                         (created_comment (prerelease_flag r) (tag_name r)) of
                    Inl e \<Rightarrow> [SetFailed e] | Inr _ \<Rightarrow> [])"
    if "\<not> 0 < pr_number pr"
  proof -
    have "run w ev =
                 (es @ pre) @
                 [CreateRelease r,
                  SetOutput ''new_tag'' (js_of_tag (tag_name r)),
                  SetOutput ''pre_release'' (JBool (prerelease_flag r)),
                  CreateComment (pr_number pr)
                    (created_comment (prerelease_flag r) (tag_name r))] @
                 (case create_comment w (pr_number pr)
                         (created_comment (prerelease_flag r) (tag_name r)) of
                    Inl e \<Rightarrow> [SetFailed e] | Inr _ \<Rightarrow> [])"
      using e rel that by (simp add: run_unfold split: sum.splits)
    moreover have "\<forall>m. SetFailed m \<notin> set (es @ pre)" using es pre by auto
    ultimately show ?thesis by blast
  qed
  show ?thesis using pos nonpos by blast
qed

theorem C9_release_status_witness:
  "create_release (sample_world (sample_pr ''feature/x'' True 7) [''1.2.3''] 500)
     \<lparr>tag_name = Some ''1.3.0'', name = ''title'', body = ''text'', draft = False,
      prerelease_flag = False, target_commitish = ''main''\<rparr> = Inr 500 \<and>
   0 < pr_number (sample_pr ''feature/x'' True 7) \<and>
   (\<exists>pre. run (sample_world (sample_pr ''feature/x'' True 7) [''1.2.3''] 500)
            (IssueComment ''created'' ''#tag'' 7) =
          pre @ [CreateRelease \<lparr>tag_name = Some ''1.3.0'', name = ''title'', body = ''text'',
                   draft = False, prerelease_flag = False, target_commitish = ''main''\<rparr>,
                 SetFailed ''Failed to create release'']) \<and>
   \<not> 0 < pr_number (sample_pr ''feature/x'' True 0) \<and>
   (\<exists>pre. run (sample_world (sample_pr ''feature/x'' True 0) [''1.2.3''] 500)
            (IssueComment ''created'' ''#tag'' 0) =
          pre @ [CreateRelease \<lparr>tag_name = Some ''1.3.0'', name = ''title'', body = ''text'',
                   draft = False, prerelease_flag = False, target_commitish = ''main''\<rparr>,
                 SetOutput ''new_tag'' (JString ''1.3.0''),
                 SetOutput ''pre_release'' (JBool False),
                 CreateComment 0 '':label: Release `1.3.0` created.''])"
proof -
  let ?r = "\<lparr>tag_name = Some ''1.3.0'', name = ''title'', body = ''text'', draft = False,
      prerelease_flag = False, target_commitish = ''main''\<rparr>"
  let ?ev = "\<lambda>n. IssueComment ''created'' ''#tag'' n"
  let ?w = "\<lambda>n. sample_world (sample_pr ''feature/x'' True n) [''1.2.3''] 500"
  have st: "create_release (?w n) ?r = Inr 500" for n by (simp add: sample_world_def)
  have num: "pr_number (sample_pr ''feature/x'' True n) = n" for n by (simp add: sample_pr_def)
  have mem: "CreateRelease ?r \<in> set (run (?w n) (?ev n))" for n
    by (simp add: sample_run_rejected)
  have ok: "create_comment (?w n) k c = Inr ()" for n k c by (simp add: sample_world_def)
  have ne: "(500::int) \<noteq> 201" by simp
  from C9_release_status [OF sample_extract(2) mem [of 7] st [of 7] ne]
  have a: "\<exists>pre. run (?w 7) (?ev 7) =
          pre @ [CreateRelease ?r, SetFailed ''Failed to create release'']"
    by (simp add: num)
  from C9_release_status [OF sample_extract(2) mem [of 0] st [of 0] ne]
  have b: "\<exists>pre. run (?w 0) (?ev 0) =
          pre @ [CreateRelease ?r, SetOutput ''new_tag'' (JString ''1.3.0''),
                 SetOutput ''pre_release'' (JBool False),
                 CreateComment 0 '':label: Release `1.3.0` created.'']"
    by (auto simp: num ok js_of_tag_def created_comment_def)
  show ?thesis using a b st [of 7] by (simp add: num)
qed

text \<open>
  C8. The tag of a created release depends only on the list of tags, the branch and the
  merged flag of the pull request: two runs that agree on them create releases with the
  same tag, whatever else differs. The order of the list matters: the list \<open>1.0.0\<close>,
  \<open>2.0.0\<close> and its reverse hold the same versions, have different baselines and give
  different tags.
\<close>

theorem C8_deterministic_order_sensitive:
  "(\<forall>r1 r2 pr1 pr2.
      CreateRelease r1 \<in> set (run w1 ev1) \<and> CreateRelease r2 \<in> set (run w2 ev2) \<and>
      event_pr w1 ev1 = Some pr1 \<and> event_pr w2 ev2 = Some pr2 \<and>
      list_tags w1 = list_tags w2 \<and> pr_head_ref pr1 = pr_head_ref pr2 \<and>
      pr_merged pr1 = pr_merged pr2 \<longrightarrow>
      tag_name r1 = tag_name r2) \<and>
   set (rev [''1.0.0'', ''2.0.0'']) = set [''1.0.0'', ''2.0.0''] \<and>
   lastTag [''1.0.0'', ''2.0.0''] = ''1.0.0'' \<and>
   lastTag (rev [''1.0.0'', ''2.0.0'']) = ''2.0.0'' \<and>
   newTag [''1.0.0'', ''2.0.0''] ''fix/a'' ''patch'' False = Some ''1.0.1'' \<and>
   newTag (rev [''1.0.0'', ''2.0.0'']) ''fix/a'' ''patch'' False = Some ''2.0.1''"
proof -
  have det: "tag_name r1 = tag_name r2"
    if "CreateRelease r1 \<in> set (run w1 ev1)" "CreateRelease r2 \<in> set (run w2 ev2)"
      "event_pr w1 ev1 = Some pr1" "event_pr w2 ev2 = Some pr2"
      "list_tags w1 = list_tags w2" "pr_head_ref pr1 = pr_head_ref pr2"
      "pr_merged pr1 = pr_merged pr2" for r1 r2 pr1 pr2
  proof -
    from run_release_facts [OF that(1)] that(3) obtain tags1 p1 where
      a: "list_tags w1 = Inr tags1" "find_pattern (pr_head_ref pr1) = Some p1"
        "tag_name r1 = newTag tags1 (pr_head_ref pr1) (bump p1) (\<not> pr_merged pr1)"
      by auto
    from run_release_facts [OF that(2)] that(4) obtain tags2 p2 where
      b: "list_tags w2 = Inr tags2" "find_pattern (pr_head_ref pr2) = Some p2"
        "tag_name r2 = newTag tags2 (pr_head_ref pr2) (bump p2) (\<not> pr_merged pr2)"
      by auto
    from a b that(5,6,7) show ?thesis by simp
  qed
  have fr: "full_release ''1.0.0''" "full_release ''2.0.0''"
    by (simp_all add: full_release_def semver_defs)
  have b1: "lastTag [''1.0.0'', ''2.0.0''] = ''1.0.0''"
    and b2: "lastTag (rev [''1.0.0'', ''2.0.0'']) = ''2.0.0''"
    by (simp_all add: lastTag_find fr)
  have inc: "semver_inc ''1.0.0'' ''patch'' None = Some ''1.0.1''"
    "semver_inc ''2.0.0'' ''patch'' None = Some ''2.0.1''"
    by (simp_all add: semver_inc_def SemVer_inc_def inc_patch_def semver_defs)
  have n1: "newTag [''1.0.0'', ''2.0.0''] ''fix/a'' ''patch'' False = Some ''1.0.1''"
    using b1 by (simp add: newTag_def inc)
  have n2: "newTag (rev [''1.0.0'', ''2.0.0'']) ''fix/a'' ''patch'' False = Some ''2.0.1''"
    using b2 by (simp add: newTag_def inc)
  have s: "set (rev [''1.0.0'', ''2.0.0'']) = set [''1.0.0'', ''2.0.0'']" by (rule set_rev)
  show ?thesis using det b1 b2 n1 n2 s by blast
qed

theorem C8_deterministic_order_sensitive_witness:
  "CreateRelease \<lparr>tag_name = Some ''1.3.0'', name = ''title'', body = ''text'', draft = False,
      prerelease_flag = False, target_commitish = ''main''\<rparr>
     \<in> set (run (sample_world (sample_pr ''feature/x'' True 7) [''1.2.3''] 201)
              (PullRequestEvent ''closed'' 7 (sample_pr ''feature/x'' True 7))) \<and>
   (\<exists>r. CreateRelease r
          \<in> set (run (sample_world (sample_pr ''feature/x'' True 9) [''1.2.3''] 500)
                   (IssueComment ''created'' ''#tag'' 9)) \<and>
        tag_name r = Some ''1.3.0'')"
proof -
  let ?r = "\<lparr>tag_name = Some ''1.3.0'', name = ''title'', body = ''text'', draft = False,
      prerelease_flag = False, target_commitish = ''main''\<rparr>"
  let ?pr1 = "sample_pr ''feature/x'' True 7"
  let ?pr2 = "sample_pr ''feature/x'' True 9"
  let ?w1 = "sample_world ?pr1 [''1.2.3''] 201"
  let ?w2 = "sample_world ?pr2 [''1.2.3''] 500"
  let ?e1 = "PullRequestEvent ''closed'' 7 ?pr1"
  let ?e2 = "IssueComment ''created'' ''#tag'' 9"
  have m1: "CreateRelease ?r \<in> set (run ?w1 ?e1)" by (simp add: sample_run_merged)
  obtain r2 where m2: "CreateRelease r2 \<in> set (run ?w2 ?e2)"
    by (simp add: sample_run_rejected)
  have p1: "event_pr ?w1 ?e1 = Some ?pr1" by (simp add: event_pr_def)
  have p2: "event_pr ?w2 ?e2 = Some ?pr2" by (rule sample_extract(2))
  have eqs: "list_tags ?w1 = list_tags ?w2" "pr_head_ref ?pr1 = pr_head_ref ?pr2"
    "pr_merged ?pr1 = pr_merged ?pr2"
    by (simp_all add: sample_world_def sample_pr_def)
  from C8_deterministic_order_sensitive [of ?w1 ?e1 ?w2 ?e2] m1 m2 p1 p2 eqs
  have "tag_name ?r = tag_name r2" by blast
  then have "tag_name r2 = Some ''1.3.0''" by simp
  with m1 m2 show ?thesis by blast
qed

end
